theory Spec2Isabelle
  imports Main "HOL-Library.AList"
begin

section \<open>Flipkart price alert bot: a shallow embedding of flipkart_price_alert.py\<close>

text \<open>
  The program keeps, in one JSON file, a dictionary from a Telegram user id to that user's
  list of price alerts. The command handlers \<open>add_product\<close> and \<open>remove_product\<close> edit
  the file; \<open>check_all_prices\<close> re-fetches every tracked product page, updates the
  prices in memory, sends one message per user whose alerts crossed their target, and
  saves the collection when at least one message was due.

  Everything outside the process (the web, the Telegram API, the disk, the clock) is a
  field of the record \<open>world\<close>. Each call to the outside appends one event to a trace,
  and the length of the trace so far is the logical time at which the world answers the
  call: the same URL may be answered differently by two fetches of one cycle.
\<close>

subsection \<open>Strings as Python uses them\<close>

text \<open>
  A Python \<open>str\<close> is modelled by \<open>string\<close>. The character classes below are the ASCII
  part of \<open>str.isdigit\<close> and \<open>str.isspace\<close>; text holding a non-ASCII Unicode digit or
  space is outside the model (a currency sign or any other non-ASCII character is
  neither, in Python as here).
\<close>

definition isdigit :: "char \<Rightarrow> bool" where
  "isdigit c = (let n = (of_char c :: nat) in 48 \<le> n \<and> n \<le> 57)"

definition isspace :: "char \<Rightarrow> bool" where
  "isspace c = (let n = (of_char c :: nat) in (9 \<le> n \<and> n \<le> 13) \<or> (28 \<le> n \<and> n \<le> 32))"

text \<open>\<open>s.strip()\<close>: leading and trailing white space removed.\<close>

definition strip :: "string \<Rightarrow> string" where
  "strip s = rev (dropWhile isspace (rev (dropWhile isspace s)))"

text \<open>The value of a run of decimal digits, most significant first.\<close>

definition digits_value :: "string \<Rightarrow> nat" where
  "digits_value ds = foldl (\<lambda>n c. 10 * n + (of_char c - 48)) 0 ds"

text \<open>
  The body of a decimal literal accepted by \<open>int(s)\<close>: digits, with single underscores
  allowed between two digits.
\<close>

fun valid_body :: "string \<Rightarrow> bool" where
  "valid_body [] = False"
| "valid_body [c] = isdigit c"
| "valid_body (c # d # r) =
     (isdigit c \<and> (if d = CHR ''_'' then valid_body r else valid_body (d # r)))"

text \<open>
  The white space \<open>int(s)\<close> skips around a literal is that of C's \<open>isspace\<close>: tab, line
  feed, vertical tab, form feed, carriage return and space. The separators
  \<open>0x1C\<close> to \<open>0x1F\<close>, which \<open>str.strip\<close> removes, make \<open>int\<close> raise.
\<close>

definition int_isspace :: "char \<Rightarrow> bool" where
  "int_isspace c = (let n = (of_char c :: nat) in (9 \<le> n \<and> n \<le> 13) \<or> n = 32)"

definition int_strip :: "string \<Rightarrow> string" where
  "int_strip s = rev (dropWhile int_isspace (rev (dropWhile int_isspace s)))"

text \<open>
  \<open>int(s)\<close> for a string, base ten: white space around the literal is ignored, one sign
  may precede the body. \<open>None\<close> is the \<open>ValueError\<close>. The first argument is
  \<open>sys.int_max_str_digits\<close>: \<open>Some n\<close> makes a literal of more than \<open>n\<close> digits a
  \<open>ValueError\<close> (CPython 3.11 and later, 4300 by default), \<open>None\<close> is no limit.
\<close>

definition py_int :: "nat option \<Rightarrow> string \<Rightarrow> int option" where
  "py_int lim s =
     (let t = int_strip s;
          neg = (t \<noteq> [] \<and> hd t = CHR ''-'');
          body = (if t \<noteq> [] \<and> (hd t = CHR ''-'' \<or> hd t = CHR ''+'') then tl t else t);
          ds = filter isdigit body
      in if \<not> valid_body body then None
         else if (case lim of None \<Rightarrow> False | Some n \<Rightarrow> n < length ds) then None
         else Some (if neg then - int (digits_value ds) else int (digits_value ds)))"

text \<open>\<open>str(n)\<close> for a natural number, as \<open>str(len(...))\<close> produces it.\<close>

definition digit_char :: "nat \<Rightarrow> char" where
  "digit_char d = ''0123456789'' ! d"

fun str_nat :: "nat \<Rightarrow> string" where
  "str_nat n =
     (if n < 10 then [digit_char n]
      else str_nat (n div 10) @ [digit_char (n mod 10)])"

declare str_nat.simps [simp del]

text \<open>\<open>sub in s\<close> for strings.\<close>

fun starts_with :: "string \<Rightarrow> string \<Rightarrow> bool" where
  "starts_with [] s = True"
| "starts_with (p # ps) [] = False"
| "starts_with (p # ps) (c # cs) = (p = c \<and> starts_with ps cs)"

fun str_contains :: "string \<Rightarrow> string \<Rightarrow> bool" where
  "str_contains sub [] = (sub = [])"
| "str_contains sub (c # cs) = (starts_with sub (c # cs) \<or> str_contains sub cs)"

subsection \<open>extract_product_id\<close>

text \<open>
  \<open>re.search(r'pid=([^&]+)', url)\<close>: the leftmost position where \<open>pid=\<close> is followed by at
  least one character other than \<open>&\<close>; the group is the longest run of such characters.
\<close>

fun extract_product_id :: "string \<Rightarrow> string option" where
  "extract_product_id [] = None"
| "extract_product_id (c # cs) =
     (if starts_with ''pid='' (c # cs) \<and> takeWhile (\<lambda>x. x \<noteq> CHR ''&'') (drop 4 (c # cs)) \<noteq> []
      then Some (takeWhile (\<lambda>x. x \<noteq> CHR ''&'') (drop 4 (c # cs)))
      else extract_product_id cs)"

subsection \<open>The data model\<close>

text \<open>
  An alert is the dictionary \<open>add_product\<close> builds. \<open>added_on\<close> is \<open>time.time()\<close>; the
  program stores it and never reads it, so the model carries it as an opaque number.
\<close>

record alert =
  alert_id :: string
  alert_name :: string
  alert_url :: string
  current_price :: int
  target_price :: int
  added_on :: nat

text \<open>The dictionary \<open>get_product_details\<close> returns.\<close>

record product_details =
  pd_name :: string
  pd_price :: int
  pd_url :: string
  pd_image :: "string option"

text \<open>One entry of \<open>user_updates\<close>.\<close>

record update_info =
  upd_name :: string
  upd_old_price :: int
  upd_current_price :: int
  upd_target_price :: int
  upd_url :: string

text \<open>
  \<open>products\<close>: a Python dictionary from user id to alert list, in insertion order (the
  order of \<open>products.keys()\<close>). \<open>map_of\<close> is the lookup, \<open>AList.update\<close> the assignment
  \<open>products[k] = v\<close> (in place for a present key, at the end for a new one).
\<close>

type_synonym products = "(string \<times> alert list) list"

text \<open>The data file: \<open>None\<close> when it does not exist.\<close>

type_synonym store = "products option"

subsection \<open>The world and the trace\<close>

text \<open>
  What \<open>BeautifulSoup.select_one\<close> finds in a product page: for each selector the text
  of the first matching element, if any; for the image, its \<open>src\<close> attribute, if it has
  one.
\<close>

record page =
  span_B_NuCI :: "string option"
  h1_span :: "string option"
  div_price :: "string option"
  img_396cs4 :: "string option option"

text \<open>
  \<open>requests.get\<close> followed by \<open>raise_for_status\<close> and the parse: an exception (timeout,
  connection error, HTTP error status) or a page.
\<close>

datatype response = RequestFailed | Page page

datatype error = OSError | TelegramError

text \<open>The messages the handlers reply with, one constructor per message of the source.\<close>

datatype reply =
    UsageAdd
  | InvalidPrice
  | InvalidUrl
  | FetchingWait
  | FetchFailed
  | AlertAdded string int int
  | UsageRemove
  | NoAlerts
  | Removed string
  | NotFound string

text \<open>
  One event per call to the outside. \<open>Send\<close> is \<open>context.bot.send_message\<close> to a chat:
  the event carries \<open>user_updates\<close>, from which the message text is rendered, and whether
  the call returned (\<open>True\<close>) or raised. \<open>Save\<close> is a call of \<open>save_products\<close> with the
  collection it was given, \<open>Fetch\<close> a call of \<open>get_product_details\<close> with a URL, \<open>Reply\<close>
  a call of \<open>reply_text\<close>.

  The world answers a call made at time \<open>t\<close>: \<open>http_get\<close> with the response to a request,
  \<open>send_ok\<close>, \<open>reply_ok\<close> and \<open>write_ok\<close> with whether the message, the reply and the
  write of the data file go through, \<open>time_time\<close> with the clock. \<open>max_str_digits\<close> is the
  interpreter's limit on the digits of an integer literal.
\<close>

datatype event =
    Fetch string
  | Reply reply
  | Send string "update_info list" bool
  | Save products

record world =
  max_str_digits :: "nat option"
  http_get :: "nat \<Rightarrow> string \<Rightarrow> response"
  send_ok :: "nat \<Rightarrow> string \<Rightarrow> update_info list \<Rightarrow> bool"
  reply_ok :: "nat \<Rightarrow> bool"
  write_ok :: "nat \<Rightarrow> bool"
  time_time :: "nat \<Rightarrow> nat"

subsection \<open>load_products and save_products\<close>

text \<open>
  A missing file is the empty dictionary. A file that exists holds a collection written
  by \<open>save_products\<close>, which \<open>json.load\<close> reads back as it was written.
\<close>

definition load_products :: "store \<Rightarrow> products" where
  "load_products st = (case st of None \<Rightarrow> [] | Some p \<Rightarrow> p)"

text \<open>
  \<open>save_products\<close> replaces the whole file. A failure is \<open>open\<close> raising \<open>OSError\<close>,
  which leaves the file as it was; a write cut off midway is outside the model.
\<close>

definition save_products :: "world \<Rightarrow> nat \<Rightarrow> products \<Rightarrow> error + store" where
  "save_products w t p = (if write_ok w t then Inr (Some p) else Inl OSError)"

subsection \<open>get_product_details\<close>

text \<open>
  Every exception inside the function is caught and turned into \<open>None\<close>: a failed
  request, \<open>int('')\<close> when the price text has no digit, a missing \<open>src\<close> attribute.
\<close>

definition get_product_details :: "world \<Rightarrow> nat \<Rightarrow> string \<Rightarrow> product_details option" where
  "get_product_details w t u =
     (case http_get w t u of
        RequestFailed \<Rightarrow> None
      | Page pg \<Rightarrow>
          (let product_name = (case span_B_NuCI pg of Some e \<Rightarrow> Some e | None \<Rightarrow> h1_span pg);
               price_element = div_price pg
           in case (price_element, product_name) of
                (Some price_text, Some name_text) \<Rightarrow>
                  (case py_int (max_str_digits w) (filter isdigit (strip price_text)) of
                     None \<Rightarrow> None
                   | Some price \<Rightarrow>
                       (case img_396cs4 pg of
                          Some None \<Rightarrow> None
                        | Some (Some src) \<Rightarrow>
                            Some \<lparr>pd_name = strip name_text, pd_price = price,
                                  pd_url = u, pd_image = Some src\<rparr>
                        | None \<Rightarrow>
                            Some \<lparr>pd_name = strip name_text, pd_price = price,
                                  pd_url = u, pd_image = None\<rparr>))
              | _ \<Rightarrow> None))"

subsection \<open>Results of an operation\<close>

text \<open>
  What an operation leaves behind: its return value or the exception that left it, the
  data file afterwards, and the trace of its calls to the outside.
\<close>

record 'a run =
  outcome :: "error + 'a"
  stored :: store
  trace :: "event list"

text \<open>
  \<open>await update.message.reply_text(...)\<close> as the last statement of a handler: the reply
  is attempted at the current time, and an exception of the Telegram API leaves the
  handler.
\<close>

definition finish :: "world \<Rightarrow> store \<Rightarrow> event list \<Rightarrow> reply \<Rightarrow> unit run" where
  "finish w st evs r =
     \<lparr>outcome = (if reply_ok w (length evs) then Inr () else Inl TelegramError),
      stored = st, trace = evs @ [Reply r]\<rparr>"

subsection \<open>check_all_prices\<close>

text \<open>
  The body of the loop over one user's alerts (lines 226 to 248), given what
  \<open>get_product_details\<close> returned. \<open>alert\<close> and \<open>products[user_id][i]\<close> are the same
  dictionary, so \<open>alert['target_price']\<close>, \<open>alert['name']\<close> and \<open>alert['url']\<close> are read
  from the alert after its price was overwritten; \<open>old_price\<close> was read before. No
  statement of the body can raise on a well-formed alert, so the \<open>except\<close> branch has
  no counterpart.
\<close>

definition check_alert :: "product_details option \<Rightarrow> alert \<Rightarrow> alert \<times> update_info option" where
  "check_alert product_details a =
     (case product_details of
        None \<Rightarrow> (a, None)
      | Some pd \<Rightarrow>
          (let new_price = pd_price pd;
               old_price = current_price a;
               a' = a\<lparr>current_price := new_price\<rparr>
           in if new_price \<le> target_price a' \<and> old_price > target_price a'
              then (a', Some \<lparr>upd_name = alert_name a', upd_old_price = old_price,
                               upd_current_price = new_price,
                               upd_target_price = target_price a', upd_url = alert_url a'\<rparr>)
              else (a', None)))"

text \<open>
  The loop over one user's alerts: the alerts as mutated, \<open>user_updates\<close>, and the trace
  extended by one fetch per alert.
\<close>

fun check_alerts :: "world \<Rightarrow> event list \<Rightarrow> alert list \<Rightarrow> alert list \<times> update_info list \<times> event list" where
  "check_alerts w evs [] = ([], [], evs)"
| "check_alerts w evs (a # as) =
     (case check_alert (get_product_details w (length evs) (alert_url a)) a of
        (a', u) \<Rightarrow>
          (case check_alerts w (evs @ [Fetch (alert_url a)]) as of
             (as', us, evs') \<Rightarrow>
               (a' # as', (case u of None \<Rightarrow> us | Some x \<Rightarrow> x # us), evs')))"

text \<open>The state of a cycle: the loaded collection, the flag, the trace so far.\<close>

record cycle =
  products :: products
  updates_found :: bool
  events :: "event list"

text \<open>
  The body of the loop over \<open>users_to_check\<close> (lines 220 to 265): a user without an
  entry is skipped; otherwise the alerts are checked and, when \<open>user_updates\<close> is not
  empty, the flag is set and one message is sent, an exception of the send being caught.
\<close>

definition check_user :: "world \<Rightarrow> string \<Rightarrow> cycle \<Rightarrow> cycle" where
  "check_user w user_id s =
     (case map_of (products s) user_id of
        None \<Rightarrow> s
      | Some alerts \<Rightarrow>
          (case check_alerts w (events s) alerts of
             (alerts', user_updates, evs) \<Rightarrow>
               (let s1 = s\<lparr>products := AList.update user_id alerts' (products s), events := evs\<rparr>
                in if user_updates \<noteq> []
                   then s1\<lparr>updates_found := True,
                           events := evs @ [Send user_id user_updates
                                              (send_ok w (length evs) user_id user_updates)]\<rparr>
                   else s1)))"

fun check_users :: "world \<Rightarrow> string list \<Rightarrow> cycle \<Rightarrow> cycle" where
  "check_users w [] s = s"
| "check_users w (u # us) s = check_users w us (check_user w u s)"

text \<open>
  \<open>specific_users\<close> is \<open>None\<close> for the scheduled check and a list for the manual one; an
  empty list is falsy and means every user, like \<open>None\<close>. The save is the last statement
  before the return and is not guarded: its exception leaves the function.
\<close>

definition users_to_check :: "products \<Rightarrow> string list option \<Rightarrow> string list" where
  "users_to_check p specific_users =
     (case specific_users of
        None \<Rightarrow> map fst p
      | Some us \<Rightarrow> (if us = [] then map fst p else us))"

definition check_all_prices :: "world \<Rightarrow> store \<Rightarrow> string list option \<Rightarrow> bool run" where
  "check_all_prices w st specific_users =
     (let p = load_products st;
          s = check_users w (users_to_check p specific_users)
                \<lparr>products = p, updates_found = False, events = []\<rparr>
      in if updates_found s
         then (case save_products w (length (events s)) (products s) of
                 Inl e \<Rightarrow> \<lparr>outcome = Inl e, stored = st,
                           trace = events s @ [Save (products s)]\<rparr>
               | Inr st' \<Rightarrow> \<lparr>outcome = Inr True, stored = st',
                             trace = events s @ [Save (products s)]\<rparr>)
         else \<lparr>outcome = Inr False, stored = st, trace = events s\<rparr>)"

subsection \<open>add_product\<close>

definition add_product :: "world \<Rightarrow> store \<Rightarrow> string \<Rightarrow> string list \<Rightarrow> unit run" where
  "add_product w st user_id args =
     (if length args < 2 then finish w st [] UsageAdd
      else
        (let u = args ! 0 in
         case py_int (max_str_digits w) (args ! 1) of
           None \<Rightarrow> finish w st [] InvalidPrice
         | Some target \<Rightarrow>
             if \<not> str_contains ''flipkart.com'' u then finish w st [] InvalidUrl
             else if \<not> reply_ok w 0
             then \<lparr>outcome = Inl TelegramError, stored = st, trace = [Reply FetchingWait]\<rparr>
             else
               (case get_product_details w 1 u of
                  None \<Rightarrow> finish w st [Reply FetchingWait, Fetch u] FetchFailed
                | Some pd \<Rightarrow>
                    (let p = load_products st;
                         p1 = (if map_of p user_id = None then AList.update user_id [] p else p);
                         user_alerts = (case map_of p1 user_id of None \<Rightarrow> [] | Some l \<Rightarrow> l);
                         product_id = (case extract_product_id u of
                                         Some pid \<Rightarrow> pid
                                       | None \<Rightarrow> str_nat (length user_alerts));
                         a = \<lparr>alert_id = product_id, alert_name = pd_name pd, alert_url = u,
                              current_price = pd_price pd, target_price = target,
                              added_on = time_time w 2\<rparr>;
                         p2 = AList.update user_id (user_alerts @ [a]) p1;
                         evs = [Reply FetchingWait, Fetch u, Save p2]
                     in case save_products w 2 p2 of
                          Inl e \<Rightarrow> \<lparr>outcome = Inl e, stored = st, trace = evs\<rparr>
                        | Inr st' \<Rightarrow>
                            finish w st' evs
                              (AlertAdded (pd_name pd) (pd_price pd) target)))))"

subsection \<open>remove_product\<close>

text \<open>
  The loop of lines 195 to 199: the first alert whose id is the argument is popped.
  The result is the popped alert and the list without it, or \<open>None\<close> when \<open>found\<close> stays
  false.
\<close>

fun pop_first :: "string \<Rightarrow> alert list \<Rightarrow> (alert \<times> alert list) option" where
  "pop_first i [] = None"
| "pop_first i (a # as) =
     (if alert_id a = i then Some (a, as)
      else (case pop_first i as of
              None \<Rightarrow> None
            | Some (removed_alert, rest) \<Rightarrow> Some (removed_alert, a # rest)))"

definition remove_product :: "world \<Rightarrow> store \<Rightarrow> string \<Rightarrow> string list \<Rightarrow> unit run" where
  "remove_product w st user_id args =
     (case args of
        [] \<Rightarrow> finish w st [] UsageRemove
      | i # _ \<Rightarrow>
          (let p = load_products st in
           case map_of p user_id of
             None \<Rightarrow> finish w st [] NoAlerts
           | Some alerts \<Rightarrow>
               if alerts = [] then finish w st [] NoAlerts
               else
                 (case pop_first i alerts of
                    None \<Rightarrow> finish w st [] (NotFound i)
                  | Some (removed_alert, rest) \<Rightarrow>
                      (let p' = AList.update user_id rest p in
                       case save_products w 0 p' of
                         Inl e \<Rightarrow> \<lparr>outcome = Inl e, stored = st, trace = [Save p']\<rparr>
                       | Inr st' \<Rightarrow>
                           finish w st' [Save p'] (Removed (alert_name removed_alert))))))"

subsection \<open>Reading a trace\<close>


fun is_save :: "event \<Rightarrow> bool" where
  "is_save (Save p) = True"
| "is_save e = False"

fun is_send :: "event \<Rightarrow> bool" where
  "is_send (Send u us ok) = True"
| "is_send e = False"

fun sent :: "event \<Rightarrow> update_info list" where
  "sent (Send u us ok) = us"
| "sent e = []"

definition notifications :: "event list \<Rightarrow> update_info list" where
  "notifications evs = concat (map sent evs)"


subsection \<open>Example data\<close>

text \<open>
  A small shop: a phone now at 950 rupees (the price text starts with the three UTF-8
  bytes of the rupee sign), a lamp at 1,200 whose page has only the fallback name
  element, a kettle whose page has no price element, and no other page. The phone's
  page is also reached by a link that carries a campaign parameter before the product
  id. The two flags
  of \<open>demo_world\<close> say whether sending a message and writing the file succeed.
\<close>

definition phone_url :: string where
  "phone_url = ''https://www.flipkart.com/phone-x/p/itm1?pid=PHONE1&lid=L1''"

definition lamp_url :: string where
  "lamp_url = ''https://www.flipkart.com/desk-lamp/p/itm2''"

definition soldout_url :: string where
  "soldout_url = ''https://www.flipkart.com/kettle/p/itm3?pid=KETTLE3''"

definition affiliate_url :: string where
  "affiliate_url = ''https://www.flipkart.com/phone-x/p/itm1?cmpid=AFF1&pid=PHONE1''"

definition shop :: "nat \<Rightarrow> string \<Rightarrow> response" where
  "shop t u =
     (if u = phone_url
      then Page \<lparr>span_B_NuCI = Some ''Phone X (Black, 128 GB)'', h1_span = None,
                 div_price = Some ([CHR 0xE2, CHR 0x82, CHR 0xB9] @ ''950''),
                 img_396cs4 = Some (Some ''https://rukminim.example/phone.jpg'')\<rparr>
      else if u = lamp_url
      then Page \<lparr>span_B_NuCI = None, h1_span = Some '' Desk Lamp '',
                 div_price = Some ''1,200'', img_396cs4 = None\<rparr>
      else if u = soldout_url
      then Page \<lparr>span_B_NuCI = Some ''Kettle'', h1_span = None,
                 div_price = None, img_396cs4 = None\<rparr>
      else if u = affiliate_url
      then Page \<lparr>span_B_NuCI = Some ''Phone X (Black, 128 GB)'', h1_span = None,
                 div_price = Some ([CHR 0xE2, CHR 0x82, CHR 0xB9] @ ''950''),
                 img_396cs4 = None\<rparr>
      else RequestFailed)"

definition demo_world :: "bool \<Rightarrow> bool \<Rightarrow> world" where
  "demo_world sends writes =
     \<lparr>max_str_digits = Some 4300, http_get = shop, send_ok = (\<lambda>t u m. sends),
      reply_ok = (\<lambda>t. True), write_ok = (\<lambda>t. writes), time_time = (\<lambda>t. 1700000000 + t)\<rparr>"

definition phone_alert :: alert where
  "phone_alert = \<lparr>alert_id = ''PHONE1'', alert_name = ''Phone X'', alert_url = phone_url,
                  current_price = 1200, target_price = 1000, added_on = 1700000000\<rparr>"

definition lamp_alert :: alert where
  "lamp_alert = \<lparr>alert_id = ''0'', alert_name = ''Desk Lamp'', alert_url = lamp_url,
                 current_price = 1300, target_price = 1000, added_on = 1700000100\<rparr>"

definition kettle_alert :: alert where
  "kettle_alert = \<lparr>alert_id = ''KETTLE3'', alert_name = ''Kettle'', alert_url = soldout_url,
                   current_price = 800, target_price = 700, added_on = 1700000200\<rparr>"

definition phone_update :: update_info where
  "phone_update = \<lparr>upd_name = ''Phone X'', upd_old_price = 1200, upd_current_price = 950,
                   upd_target_price = 1000, upd_url = phone_url\<rparr>"

text \<open>
  A data file with two users, both tracking the phone, and the collection one cycle
  makes of it.
\<close>

definition demo_store :: store where
  "demo_store = Some [(''42'', [phone_alert]), (''7'', [lamp_alert, phone_alert])]"

definition demo_checked :: products where
  "demo_checked =
     [(''42'', [phone_alert\<lparr>current_price := 950\<rparr>]),
      (''7'', [lamp_alert\<lparr>current_price := 1200\<rparr>, phone_alert\<lparr>current_price := 950\<rparr>])]"

section \<open>Properties\<close>

subsection \<open>The loop over one user's alerts\<close>

lemma check_alerts_events:
  "snd (snd (check_alerts w evs as)) = evs @ map (\<lambda>a. Fetch (alert_url a)) as"
  by (induction as arbitrary: evs) (simp_all add: case_prod_beta)

lemma check_alerts_length: "length (fst (check_alerts w evs as)) = length as"
  by (induction as arbitrary: evs) (simp_all add: case_prod_beta)

lemma check_alerts_append:
  "check_alerts w evs (xs @ ys) =
     (case check_alerts w evs xs of
        (xs', us, evs1) \<Rightarrow>
          (case check_alerts w evs1 ys of
             (ys', vs, evs2) \<Rightarrow> (xs' @ ys', us @ vs, evs2)))"
  by (induction xs arbitrary: evs) (simp_all add: case_prod_beta split: option.splits)

lemma check_alerts_nth:
  assumes "i < length as"
  shows "check_alerts w evs as =
     (case check_alerts w evs (take i as) of
        (xs', us, evs1) \<Rightarrow>
          (case check_alert (get_product_details w (length evs + i) (alert_url (as ! i))) (as ! i) of
             (a', u) \<Rightarrow>
               (case check_alerts w (evs @ map (\<lambda>a. Fetch (alert_url a)) (take (Suc i) as))
                       (drop (Suc i) as) of
                  (ys', vs, evs2) \<Rightarrow>
                    (xs' @ a' # ys', us @ (case u of None \<Rightarrow> [] | Some x \<Rightarrow> [x]) @ vs, evs2))))"
proof -
  have split: "as = take i as @ (as ! i) # drop (Suc i) as"
    using assms by (simp add: id_take_nth_drop)
  have ev1: "snd (snd (check_alerts w evs (take i as))) = evs @ map (\<lambda>a. Fetch (alert_url a)) (take i as)"
    by (rule check_alerts_events)
  have len: "length (evs @ map (\<lambda>a. Fetch (alert_url a)) (take i as)) = length evs + i"
    using assms by simp
  have tk: "take (Suc i) as = take i as @ [as ! i]"
    using assms by (simp add: take_Suc_conv_app_nth)
  have "check_alerts w evs as = check_alerts w evs (take i as @ (as ! i) # drop (Suc i) as)"
    using split by simp
  also have "\<dots> = (case check_alerts w evs (take i as) of
        (xs', us, evs1) \<Rightarrow>
          (case check_alerts w evs1 ((as ! i) # drop (Suc i) as) of
             (ys', vs, evs2) \<Rightarrow> (xs' @ ys', us @ vs, evs2)))"
    by (rule check_alerts_append)
  finally show ?thesis
    using ev1 len tk by (simp add: case_prod_beta split: option.splits)
qed



lemma notifications_append [simp]: "notifications (xs @ ys) = notifications xs @ notifications ys"
  by (simp add: notifications_def)

lemma notifications_fetches [simp]: "notifications (map (\<lambda>a. Fetch (f a)) as) = []"
  by (induction as) (auto simp: notifications_def)

lemma check_user_events:
  "events (check_user w u s) = events s @
     (case map_of (products s) u of
        None \<Rightarrow> []
      | Some as \<Rightarrow>
          map (\<lambda>a. Fetch (alert_url a)) as @
          (let us = fst (snd (check_alerts w (events s) as))
           in if us = [] then []
              else [Send u us (send_ok w (length (events s) + length as) u us)]))"
  by (simp add: check_user_def Let_def case_prod_beta check_alerts_events split: option.splits)

lemma check_user_products:
  "products (check_user w u s) =
     (case map_of (products s) u of
        None \<Rightarrow> products s
      | Some as \<Rightarrow> AList.update u (fst (check_alerts w (events s) as)) (products s))"
  by (simp add: check_user_def Let_def case_prod_beta split: option.splits)

lemma check_user_flag:
  "updates_found (check_user w u s) =
     (updates_found s \<or>
      (case map_of (products s) u of
         None \<Rightarrow> False
       | Some as \<Rightarrow> fst (snd (check_alerts w (events s) as)) \<noteq> []))"
  by (simp add: check_user_def Let_def case_prod_beta split: option.splits)

lemma check_user_notifications:
  "notifications (events (check_user w u s)) = notifications (events s) @
     (case map_of (products s) u of
        None \<Rightarrow> []
      | Some as \<Rightarrow> fst (snd (check_alerts w (events s) as)))"
  by (auto simp: check_user_events Let_def notifications_def split: option.splits)


lemma check_user_step:
  "\<exists>X. events (check_user w u s) = events s @ X \<and> filter is_save X = [] \<and>
       updates_found (check_user w u s) = (updates_found s \<or> notifications X \<noteq> [])"
proof (cases "map_of (products s) u")
  case None
  then have "events (check_user w u s) = events s @ [] \<and> filter is_save [] = [] \<and>
       updates_found (check_user w u s) = (updates_found s \<or> notifications [] \<noteq> [])"
    by (simp add: check_user_def notifications_def)
  then show ?thesis ..
next
  case (Some as)
  define us where "us = fst (snd (check_alerts w (events s) as))"
  define X where "X = map (\<lambda>a. Fetch (alert_url a)) as @
            (if us = [] then [] else [Send u us (send_ok w (length (events s) + length as) u us)])"
  have a: "events (check_user w u s) = events s @ X"
    using Some by (simp add: check_user_events Let_def X_def us_def)
  have b: "filter is_save X = []"
    by (simp add: X_def filter_empty_conv)
  have c: "notifications X = us"
    by (simp add: X_def notifications_def)
  have d: "updates_found (check_user w u s) = (updates_found s \<or> us \<noteq> [])"
    using Some by (simp add: check_user_flag us_def)
  have "events (check_user w u s) = events s @ X \<and> filter is_save X = [] \<and>
       updates_found (check_user w u s) = (updates_found s \<or> notifications X \<noteq> [])"
    using a b d by (simp only: c)
  then show ?thesis ..
qed

lemma check_users_step:
  "\<exists>X. events (check_users w us s) = events s @ X \<and> filter is_save X = [] \<and>
       updates_found (check_users w us s) = (updates_found s \<or> notifications X \<noteq> [])"
proof (induction us arbitrary: s)
  case Nil
  have "events (check_users w [] s) = events s @ [] \<and> filter is_save [] = [] \<and>
       updates_found (check_users w [] s) = (updates_found s \<or> notifications [] \<noteq> [])"
    by (simp add: notifications_def)
  then show ?case ..
next
  case (Cons u us)
  obtain X where X: "events (check_user w u s) = events s @ X" "filter is_save X = []"
      "updates_found (check_user w u s) = (updates_found s \<or> notifications X \<noteq> [])"
    using check_user_step by blast
  obtain Y where Y: "events (check_users w us (check_user w u s)) = events (check_user w u s) @ Y"
      "filter is_save Y = []"
      "updates_found (check_users w us (check_user w u s)) =
         (updates_found (check_user w u s) \<or> notifications Y \<noteq> [])"
    using Cons.IH by blast
  have e: "events (check_users w (u # us) s) = events s @ (X @ Y)"
    by (simp add: X(1) Y(1))
  have f: "filter is_save (X @ Y) = []"
    by (simp add: X(2) Y(2))
  have g: "updates_found (check_users w (u # us) s) =
      (updates_found s \<or> notifications (X @ Y) \<noteq> [])"
    by (simp add: X(3) Y(3))
  from e f g have "events (check_users w (u # us) s) = events s @ (X @ Y) \<and>
      filter is_save (X @ Y) = [] \<and>
      updates_found (check_users w (u # us) s) =
        (updates_found s \<or> notifications (X @ Y) \<noteq> [])"
    by (intro conjI)
  then show ?case ..
qed

text \<open>The trace and the flag after the loop over the users.\<close>

lemma check_all_prices_unfold:
  "check_all_prices w st su =
     (let s = check_users w (users_to_check (load_products st) su)
                \<lparr>products = load_products st, updates_found = False, events = []\<rparr>
      in if updates_found s
         then \<lparr>outcome = (if write_ok w (length (events s)) then Inr True else Inl OSError),
               stored = (if write_ok w (length (events s)) then Some (products s) else st),
               trace = events s @ [Save (products s)]\<rparr>
         else \<lparr>outcome = Inr False, stored = st, trace = events s\<rparr>)"
  by (simp add: check_all_prices_def Let_def save_products_def)

lemma cycle_loop_facts:
  "filter is_save (events (check_users w us \<lparr>products = p, updates_found = False, events = []\<rparr>)) = [] \<and>
   updates_found (check_users w us \<lparr>products = p, updates_found = False, events = []\<rparr>) =
     (notifications (events (check_users w us \<lparr>products = p, updates_found = False, events = []\<rparr>)) \<noteq> [])"
proof -
  let ?s0 = "\<lparr>products = p, updates_found = False, events = []\<rparr>"
  obtain X where X: "events (check_users w us ?s0) = events ?s0 @ X" "filter is_save X = []"
      "updates_found (check_users w us ?s0) = (updates_found ?s0 \<or> notifications X \<noteq> [])"
    using check_users_step by blast
  have ev: "events (check_users w us ?s0) = X"
    using X(1) by simp
  have fl: "updates_found (check_users w us ?s0) = (notifications X \<noteq> [])"
    using X(3) by simp
  show ?thesis
    by (simp only: ev fl X(2))
qed

subsection \<open>The example data evaluated\<close>

lemma shop_phone:
  "shop t phone_url =
     Page \<lparr>span_B_NuCI = Some ''Phone X (Black, 128 GB)'', h1_span = None,
           div_price = Some ([CHR 0xE2, CHR 0x82, CHR 0xB9] @ ''950''),
           img_396cs4 = Some (Some ''https://rukminim.example/phone.jpg'')\<rparr>"
  by (simp add: shop_def)

lemma shop_lamp:
  "shop t lamp_url =
     Page \<lparr>span_B_NuCI = None, h1_span = Some '' Desk Lamp '',
           div_price = Some ''1,200'', img_396cs4 = None\<rparr>"
  by (simp add: shop_def phone_url_def lamp_url_def)

lemma shop_soldout:
  "shop t soldout_url =
     Page \<lparr>span_B_NuCI = Some ''Kettle'', h1_span = None, div_price = None, img_396cs4 = None\<rparr>"
  by (simp add: shop_def phone_url_def lamp_url_def soldout_url_def)

lemma demo_world_fields:
  "max_str_digits (demo_world sends writes) = Some 4300"
  "http_get (demo_world sends writes) = shop"
  "send_ok (demo_world sends writes) = (\<lambda>t u m. sends)"
  "reply_ok (demo_world sends writes) = (\<lambda>t. True)"
  "write_ok (demo_world sends writes) = (\<lambda>t. writes)"
  "time_time (demo_world sends writes) = (\<lambda>t. 1700000000 + t)"
  by (simp_all add: demo_world_def)

lemma fetch_phone:
  "get_product_details (demo_world sends writes) t phone_url =
     Some \<lparr>pd_name = ''Phone X (Black, 128 GB)'', pd_price = 950, pd_url = phone_url,
           pd_image = Some ''https://rukminim.example/phone.jpg''\<rparr>"
  by (simp add: get_product_details_def demo_world_fields shop_phone py_int_def Let_def
        strip_def isspace_def int_strip_def int_isspace_def isdigit_def digits_value_def)

lemma fetch_lamp:
  "get_product_details (demo_world sends writes) t lamp_url =
     Some \<lparr>pd_name = ''Desk Lamp'', pd_price = 1200, pd_url = lamp_url, pd_image = None\<rparr>"
  by (simp add: get_product_details_def demo_world_fields shop_lamp py_int_def Let_def
        strip_def isspace_def int_strip_def int_isspace_def isdigit_def digits_value_def)

lemma fetch_kettle: "get_product_details (demo_world sends writes) t soldout_url = None"
  by (simp add: get_product_details_def demo_world_fields shop_soldout)

lemmas cycle_eval = check_all_prices_unfold load_products_def users_to_check_def
  check_user_def check_alert_def fetch_phone fetch_lamp fetch_kettle demo_world_fields
  phone_alert_def lamp_alert_def kettle_alert_def phone_update_def Let_def


lemma demo_cycle:
  "check_all_prices (demo_world sends writes) demo_store None =
     \<lparr>outcome = (if writes then Inr True else Inl OSError),
      stored = (if writes then Some demo_checked else demo_store),
      trace = [Fetch phone_url, Send ''42'' [phone_update] sends,
               Fetch lamp_url, Fetch phone_url, Send ''7'' [phone_update] sends,
               Save demo_checked]\<rparr>"
  by (simp add: cycle_eval demo_store_def demo_checked_def)

lemma extract_phone: "extract_product_id phone_url = Some ''PHONE1''"
  by (simp add: phone_url_def)

lemma extract_lamp: "extract_product_id lamp_url = None"
  by (simp add: lamp_url_def)

lemma flipkart_phone: "str_contains ''flipkart.com'' phone_url"
  by (simp add: phone_url_def)

lemma flipkart_lamp: "str_contains ''flipkart.com'' lamp_url"
  by (simp add: lamp_url_def)

lemma shop_affiliate:
  "shop t affiliate_url =
     Page \<lparr>span_B_NuCI = Some ''Phone X (Black, 128 GB)'', h1_span = None,
           div_price = Some ([CHR 0xE2, CHR 0x82, CHR 0xB9] @ ''950''), img_396cs4 = None\<rparr>"
  by (simp add: shop_def phone_url_def lamp_url_def soldout_url_def affiliate_url_def)

lemma fetch_affiliate:
  "get_product_details (demo_world sends writes) t affiliate_url =
     Some \<lparr>pd_name = ''Phone X (Black, 128 GB)'', pd_price = 950, pd_url = affiliate_url,
           pd_image = None\<rparr>"
  by (simp add: get_product_details_def demo_world_fields shop_affiliate py_int_def Let_def
        strip_def isspace_def int_strip_def int_isspace_def isdigit_def digits_value_def)

lemma extract_affiliate: "extract_product_id affiliate_url = Some ''AFF1''"
  by (simp add: affiliate_url_def)

lemma flipkart_affiliate: "str_contains ''flipkart.com'' affiliate_url"
  by (simp add: affiliate_url_def)

lemma int_1000: "py_int (Some 4300) ''1000'' = Some 1000"
  by (simp add: py_int_def int_strip_def int_isspace_def isdigit_def digits_value_def Let_def)

lemma int_900: "py_int (Some 4300) ''900'' = Some 900"
  by (simp add: py_int_def int_strip_def int_isspace_def isdigit_def digits_value_def Let_def)

subsection \<open>The check of one alert\<close>

lemma check_alert_success:
  "check_alert (Some pd) a =
     (a\<lparr>current_price := pd_price pd\<rparr>,
      if pd_price pd \<le> target_price a \<and> target_price a < current_price a
      then Some \<lparr>upd_name = alert_name a, upd_old_price = current_price a,
                 upd_current_price = pd_price pd, upd_target_price = target_price a,
                 upd_url = alert_url a\<rparr>
      else None)"
  by (simp add: check_alert_def Let_def)


lemma map_of_check_user:
  "map_of (products s) u = Some as \<Longrightarrow>
   map_of (products (check_user w u s)) u = Some (fst (check_alerts w (events s) as))"
  by (simp add: check_user_products update_conv')






subsection \<open>The crossing rule and a failed fetch\<close>

text \<open>
  Claim C1. When the fetch for the alert at position \<open>i\<close> of a user's list succeeds,
  the notifications dispatched for that user are those of the alerts before it, then
  the one for this alert exactly when the new price is at most the target and the old
  price (the alert's \<open>current_price\<close> before the fetch) is above the target, then those
  of the alerts after it. An old price at or below the target never fires. The second
  conjunct is the same rule for the body of the loop alone.
\<close>

theorem crossing_rule:
  assumes "map_of (products s) u = Some as"
    and "i < length as"
    and "get_product_details w (length (events s) + i) (alert_url (as ! i)) = Some pd"
  shows "notifications (events (check_user w u s)) =
           notifications (events s)
           @ fst (snd (check_alerts w (events s) (take i as)))
           @ (if pd_price pd \<le> target_price (as ! i) \<and> target_price (as ! i) < current_price (as ! i)
              then [\<lparr>upd_name = alert_name (as ! i), upd_old_price = current_price (as ! i),
                     upd_current_price = pd_price pd, upd_target_price = target_price (as ! i),
                     upd_url = alert_url (as ! i)\<rparr>]
              else [])
           @ fst (snd (check_alerts w (events s @ map (\<lambda>a. Fetch (alert_url a)) (take (Suc i) as))
                         (drop (Suc i) as)))
         \<and> (snd (check_alert (Some pd) (as ! i)) \<noteq> None) =
             (pd_price pd \<le> target_price (as ! i) \<and> target_price (as ! i) < current_price (as ! i))"
proof -
  have "notifications (events (check_user w u s)) =
          notifications (events s) @ fst (snd (check_alerts w (events s) as))"
    using assms(1) by (simp add: check_user_notifications)
  also have "fst (snd (check_alerts w (events s) as)) =
           fst (snd (check_alerts w (events s) (take i as)))
           @ (case snd (check_alert (Some pd) (as ! i)) of None \<Rightarrow> [] | Some x \<Rightarrow> [x])
           @ fst (snd (check_alerts w (events s @ map (\<lambda>a. Fetch (alert_url a)) (take (Suc i) as))
                         (drop (Suc i) as)))"
    by (subst check_alerts_nth[OF assms(2)]) (simp add: case_prod_beta assms(3))
  finally show ?thesis
    by (simp add: check_alert_success)
qed

text \<open>
  The rule on the example data: the phone, stored at 1200 with target 1000 and fetched
  at 950, fires; stored at 900 or at 1000 it does not; the lamp before it in the list,
  fetched at 1200, adds nothing.
\<close>

theorem crossing_rule_witness:
  "map_of (products \<lparr>products = [(''42'', [lamp_alert, phone_alert])],
                     updates_found = False, events = []\<rparr>) ''42''
     = Some [lamp_alert, phone_alert]
   \<and> Suc 0 < length [lamp_alert, phone_alert]
   \<and> get_product_details (demo_world True True) (Suc 0) phone_url =
       Some \<lparr>pd_name = ''Phone X (Black, 128 GB)'', pd_price = 950, pd_url = phone_url,
             pd_image = Some ''https://rukminim.example/phone.jpg''\<rparr>
   \<and> notifications
       (events (check_user (demo_world True True) ''42''
                  \<lparr>products = [(''42'', [lamp_alert, phone_alert])],
                   updates_found = False, events = []\<rparr>)) = [phone_update]
   \<and> notifications
       (events (check_user (demo_world True True) ''42''
                  \<lparr>products = [(''42'', [phone_alert\<lparr>current_price := 900\<rparr>])],
                   updates_found = False, events = []\<rparr>)) = []
   \<and> notifications
       (events (check_user (demo_world True True) ''42''
                  \<lparr>products = [(''42'', [phone_alert\<lparr>current_price := 1000\<rparr>])],
                   updates_found = False, events = []\<rparr>)) = []"
proof -
  let ?w = "demo_world True True"
  let ?pd = "\<lparr>pd_name = ''Phone X (Black, 128 GB)'', pd_price = 950, pd_url = phone_url,
             pd_image = Some ''https://rukminim.example/phone.jpg''\<rparr>"
  let ?s = "\<lparr>products = [(''42'', [lamp_alert, phone_alert])],
             updates_found = False, events = []\<rparr>"
  let ?s1 = "\<lparr>products = [(''42'', [phone_alert\<lparr>current_price := 900\<rparr>])],
             updates_found = False, events = []\<rparr>"
  let ?s2 = "\<lparr>products = [(''42'', [phone_alert\<lparr>current_price := 1000\<rparr>])],
             updates_found = False, events = []\<rparr>"
  have a1: "map_of (products ?s) ''42'' = Some [lamp_alert, phone_alert]"
    by simp
  have a2: "Suc 0 < length [lamp_alert, phone_alert]"
    by simp
  have a3: "get_product_details ?w (length (events ?s) + Suc 0)
              (alert_url ([lamp_alert, phone_alert] ! Suc 0)) = Some ?pd"
    by (simp add: fetch_phone phone_alert_def)
  have b1: "map_of (products ?s1) ''42'' = Some [phone_alert\<lparr>current_price := 900\<rparr>]"
    by simp
  have b2: "0 < length [phone_alert\<lparr>current_price := 900\<rparr>]"
    by simp
  have b3: "get_product_details ?w (length (events ?s1) + 0)
              (alert_url ([phone_alert\<lparr>current_price := 900\<rparr>] ! 0)) = Some ?pd"
    by (simp add: fetch_phone phone_alert_def)
  have c1: "map_of (products ?s2) ''42'' = Some [phone_alert\<lparr>current_price := 1000\<rparr>]"
    by simp
  have c2: "0 < length [phone_alert\<lparr>current_price := 1000\<rparr>]"
    by simp
  have c3: "get_product_details ?w (length (events ?s2) + 0)
              (alert_url ([phone_alert\<lparr>current_price := 1000\<rparr>] ! 0)) = Some ?pd"
    by (simp add: fetch_phone phone_alert_def)
  have fires: "notifications (events (check_user ?w ''42'' ?s)) = [phone_update]"
    using crossing_rule[OF a1 a2 a3] by (simp add: cycle_eval notifications_def)
  have below: "notifications (events (check_user ?w ''42'' ?s1)) = []"
    using crossing_rule[OF b1 b2 b3] by (simp add: cycle_eval notifications_def)
  have equal: "notifications (events (check_user ?w ''42'' ?s2)) = []"
    using crossing_rule[OF c1 c2 c3] by (simp add: cycle_eval notifications_def)
  show ?thesis
    using a1 a2 fires below equal by (simp add: fetch_phone)
qed



text \<open>
  Claim C5, amended. When the fetch for the alert at position \<open>i\<close> succeeds, the alert's
  \<open>current_price\<close> is overwritten with the fetched price, whether or not the target was
  crossed, and every other field, the name included, is left as it was.
\<close>

theorem fetch_overwrites_price_only:
  assumes "map_of (products s) u = Some as"
    and "i < length as"
    and "get_product_details w (length (events s) + i) (alert_url (as ! i)) = Some pd"
  shows "\<exists>as'. map_of (products (check_user w u s)) u = Some as' \<and> length as' = length as \<and>
           as' ! i = (as ! i)\<lparr>current_price := pd_price pd\<rparr>"
proof -
  have p: "map_of (products (check_user w u s)) u = Some (fst (check_alerts w (events s) as))"
    using assms(1) by (rule map_of_check_user)
  have l: "length (fst (check_alerts w (events s) (take i as))) = i"
    using assms(2) by (simp add: check_alerts_length)
  have "fst (check_alerts w (events s) as) ! i = (as ! i)\<lparr>current_price := pd_price pd\<rparr>"
    by (subst check_alerts_nth[OF assms(2)])
       (simp add: case_prod_beta assms(3) check_alert_success nth_append l)
  then show ?thesis
    using p by (simp add: check_alerts_length)
qed

text \<open>
  The lamp is fetched at 1200, above its target 1000: no crossing, and the price is
  overwritten all the same.
\<close>

theorem fetch_overwrites_price_only_witness:
  "map_of (products \<lparr>products = [(''42'', [lamp_alert, phone_alert])],
                     updates_found = False, events = []\<rparr>) ''42''
     = Some [lamp_alert, phone_alert]
   \<and> 0 < length [lamp_alert, phone_alert]
   \<and> get_product_details (demo_world True True) 0 lamp_url =
       Some \<lparr>pd_name = ''Desk Lamp'', pd_price = 1200, pd_url = lamp_url, pd_image = None\<rparr>
   \<and> (\<exists>as'. map_of (products (check_user (demo_world True True) ''42''
                     \<lparr>products = [(''42'', [lamp_alert, phone_alert])],
                      updates_found = False, events = []\<rparr>)) ''42'' = Some as'
             \<and> length as' = 2
             \<and> as' ! 0 = lamp_alert\<lparr>current_price := 1200\<rparr>)"
proof -
  let ?w = "demo_world True True"
  let ?s = "\<lparr>products = [(''42'', [lamp_alert, phone_alert])],
             updates_found = False, events = []\<rparr>"
  let ?pd = "\<lparr>pd_name = ''Desk Lamp'', pd_price = 1200, pd_url = lamp_url, pd_image = None\<rparr>"
  have a1: "map_of (products ?s) ''42'' = Some [lamp_alert, phone_alert]"
    by simp
  have a2: "0 < length [lamp_alert, phone_alert]"
    by simp
  have a3: "get_product_details ?w (length (events ?s) + 0)
              (alert_url ([lamp_alert, phone_alert] ! 0)) = Some ?pd"
    by (simp add: fetch_lamp lamp_alert_def)
  show ?thesis
    using fetch_overwrites_price_only[OF a1 a2 a3] a1 a2
    by (simp add: fetch_lamp numeral_2_eq_2)
qed

text \<open>
  Claim C5 as stated has the name overwritten too. The fetched name of the phone is
  \<open>Phone X (Black, 128 GB)\<close>; the alert saved by the cycle still has the name \<open>Phone X\<close>
  under which it was stored.
\<close>

theorem name_overwritten_counterexample:
  "get_product_details (demo_world True True) 0 (alert_url phone_alert) =
     Some \<lparr>pd_name = ''Phone X (Black, 128 GB)'', pd_price = 950, pd_url = phone_url,
           pd_image = Some ''https://rukminim.example/phone.jpg''\<rparr>
   \<and> stored (check_all_prices (demo_world True True) (Some [(''42'', [phone_alert])]) None) =
       Some [(''42'', [phone_alert\<lparr>current_price := 950\<rparr>])]
   \<and> alert_name (phone_alert\<lparr>current_price := 950\<rparr>) = ''Phone X''"
  by (simp add: cycle_eval)

subsection \<open>The cycle: the sends, then at most one save\<close>

lemma sent_not_send: "\<not> is_send e \<Longrightarrow> sent e = []"
  by (cases e) simp_all

lemma no_send_no_notifications: "filter is_send X = [] \<Longrightarrow> notifications X = []"
  by (induction X) (auto simp: notifications_def sent_not_send split: if_splits)

lemma dropWhile_no_save:
  "filter is_save X = [] \<Longrightarrow> dropWhile (\<lambda>e. \<not> is_save e) (X @ Y) = dropWhile (\<lambda>e. \<not> is_save e) Y"
  by (induction X) (auto split: if_splits)

lemma dropWhile_no_save': "filter is_save X = [] \<Longrightarrow> dropWhile (\<lambda>e. \<not> is_save e) X = []"
  using dropWhile_no_save[of X "[]"] by simp

text \<open>
  Claim C9. A cycle that dispatches no notification returns \<open>False\<close>, calls
  \<open>save_products\<close> never and leaves the data file as it was: the prices fetched in that
  cycle are not persisted.
\<close>

theorem quiet_cycle_not_saved:
  assumes "notifications (trace (check_all_prices w st su)) = []"
  shows "outcome (check_all_prices w st su) = Inr False
         \<and> stored (check_all_prices w st su) = st
         \<and> filter is_save (trace (check_all_prices w st su)) = []"
proof -
  define s where "s = check_users w (users_to_check (load_products st) su)
                        \<lparr>products = load_products st, updates_found = False, events = []\<rparr>"
  have facts: "filter is_save (events s) = []" "updates_found s = (notifications (events s) \<noteq> [])"
    using cycle_loop_facts[of w "users_to_check (load_products st) su" "load_products st"]
    by (simp_all add: s_def)
  have r: "check_all_prices w st su =
      (if updates_found s
       then \<lparr>outcome = (if write_ok w (length (events s)) then Inr True else Inl OSError),
             stored = (if write_ok w (length (events s)) then Some (products s) else st),
             trace = events s @ [Save (products s)]\<rparr>
       else \<lparr>outcome = Inr False, stored = st, trace = events s\<rparr>)"
    by (simp add: check_all_prices_unfold s_def Let_def)
  have "\<not> updates_found s"
  proof
    assume u: "updates_found s"
    then have "notifications (trace (check_all_prices w st su)) = notifications (events s)"
      by (simp add: r notifications_def)
    then show False
      using assms facts(2) u by simp
  qed
  then show ?thesis
    using facts(1) by (simp add: r)
qed

text \<open>
  A cycle over the lamp (fetched at 1200, stored at 1300, target 1000) and the kettle
  (fetch fails): nothing is sent, nothing is saved, and the lamp's new price exists in
  memory only.
\<close>

theorem quiet_cycle_not_saved_witness:
  "notifications (trace (check_all_prices (demo_world True True)
                           (Some [(''42'', [lamp_alert, kettle_alert])]) None)) = []
   \<and> outcome (check_all_prices (demo_world True True)
                (Some [(''42'', [lamp_alert, kettle_alert])]) None) = Inr False
   \<and> stored (check_all_prices (demo_world True True)
               (Some [(''42'', [lamp_alert, kettle_alert])]) None)
       = Some [(''42'', [lamp_alert, kettle_alert])]
   \<and> filter is_save (trace (check_all_prices (demo_world True True)
                               (Some [(''42'', [lamp_alert, kettle_alert])]) None)) = []
   \<and> products (check_users (demo_world True True) [''42'']
                 \<lparr>products = [(''42'', [lamp_alert, kettle_alert])],
                  updates_found = False, events = []\<rparr>)
       = [(''42'', [lamp_alert\<lparr>current_price := 1200\<rparr>, kettle_alert])]"
proof -
  let ?r = "check_all_prices (demo_world True True)
              (Some [(''42'', [lamp_alert, kettle_alert])]) None"
  have quiet: "notifications (trace ?r) = []"
    by (simp add: cycle_eval notifications_def)
  have mem: "products (check_users (demo_world True True) [''42'']
                 \<lparr>products = [(''42'', [lamp_alert, kettle_alert])],
                  updates_found = False, events = []\<rparr>)
       = [(''42'', [lamp_alert\<lparr>current_price := 1200\<rparr>, kettle_alert])]"
    by (simp add: cycle_eval)
  show ?thesis
    using quiet_cycle_not_saved[OF quiet] quiet mem by simp
qed

text \<open>
  Claim C3. A cycle that dispatches at least one notification calls \<open>save_products\<close>
  exactly once, as its last action after the loop over all users, with the whole
  collection as the loop left it.
\<close>

theorem single_save_per_cycle:
  fixes w st su
  defines "s \<equiv> check_users w (users_to_check (load_products st) su)
                   \<lparr>products = load_products st, updates_found = False, events = []\<rparr>"
  assumes "notifications (trace (check_all_prices w st su)) \<noteq> []"
  shows "trace (check_all_prices w st su) = events s @ [Save (products s)]
         \<and> filter is_save (events s) = []
         \<and> length (filter is_save (trace (check_all_prices w st su))) = 1
         \<and> stored (check_all_prices w st su) =
             (if write_ok w (length (events s)) then Some (products s) else st)"
proof -
  have facts: "filter is_save (events s) = []" "updates_found s = (notifications (events s) \<noteq> [])"
    using cycle_loop_facts[of w "users_to_check (load_products st) su" "load_products st"]
    by (simp_all add: s_def)
  have r: "check_all_prices w st su =
      (if updates_found s
       then \<lparr>outcome = (if write_ok w (length (events s)) then Inr True else Inl OSError),
             stored = (if write_ok w (length (events s)) then Some (products s) else st),
             trace = events s @ [Save (products s)]\<rparr>
       else \<lparr>outcome = Inr False, stored = st, trace = events s\<rparr>)"
    by (simp add: check_all_prices_unfold s_def Let_def)
  have "updates_found s"
  proof (rule ccontr)
    assume u: "\<not> updates_found s"
    then have "notifications (trace (check_all_prices w st su)) = notifications (events s)"
      by (simp add: r)
    then show False
      using assms(2) facts(2) u by simp
  qed
  then show ?thesis
    using facts(1) by (simp add: r)
qed

text \<open>
  The cycle over the example file: two users, three alerts, two crossings, one save at
  the end.
\<close>

theorem single_save_per_cycle_witness:
  "notifications (trace (check_all_prices (demo_world True True) demo_store None))
     = [phone_update, phone_update]
   \<and> trace (check_all_prices (demo_world True True) demo_store None) =
       [Fetch phone_url, Send ''42'' [phone_update] True,
        Fetch lamp_url, Fetch phone_url, Send ''7'' [phone_update] True,
        Save demo_checked]
   \<and> length (filter is_save (trace (check_all_prices (demo_world True True) demo_store None))) = 1
   \<and> stored (check_all_prices (demo_world True True) demo_store None) = Some demo_checked"
proof -
  have some: "notifications (trace (check_all_prices (demo_world True True) demo_store None)) \<noteq> []"
    by (simp add: demo_cycle notifications_def)
  show ?thesis
    using single_save_per_cycle[OF some] by (simp add: demo_cycle notifications_def)
qed

text \<open>
  Claim C2, amended. In every cycle no message is sent after the call of
  \<open>save_products\<close>: the messages go out during the loop, the save comes last. When the
  save fails, at least one message of that cycle has already been sent.
\<close>

theorem notify_before_persist:
  "filter is_send (dropWhile (\<lambda>e. \<not> is_save e) (trace (check_all_prices w st su))) = []
   \<and> (\<forall>e. outcome (check_all_prices w st su) = Inl e \<longrightarrow>
          filter is_send (trace (check_all_prices w st su)) \<noteq> []
          \<and> is_save (last (trace (check_all_prices w st su))))"
proof -
  define s where "s = check_users w (users_to_check (load_products st) su)
                        \<lparr>products = load_products st, updates_found = False, events = []\<rparr>"
  have facts: "filter is_save (events s) = []" "updates_found s = (notifications (events s) \<noteq> [])"
    using cycle_loop_facts[of w "users_to_check (load_products st) su" "load_products st"]
    by (simp_all add: s_def)
  have r: "check_all_prices w st su =
      (if updates_found s
       then \<lparr>outcome = (if write_ok w (length (events s)) then Inr True else Inl OSError),
             stored = (if write_ok w (length (events s)) then Some (products s) else st),
             trace = events s @ [Save (products s)]\<rparr>
       else \<lparr>outcome = Inr False, stored = st, trace = events s\<rparr>)"
    by (simp add: check_all_prices_unfold s_def Let_def)
  have sends: "updates_found s \<Longrightarrow> filter is_send (events s) \<noteq> []"
    using facts(2) no_send_no_notifications by blast
  have a: "filter is_send (dropWhile (\<lambda>e. \<not> is_save e) (trace (check_all_prices w st su))) = []"
    using facts(1) by (simp add: r dropWhile_no_save dropWhile_no_save')
  have b: "\<forall>e. outcome (check_all_prices w st su) = Inl e \<longrightarrow>
          filter is_send (trace (check_all_prices w st su)) \<noteq> []
          \<and> is_save (last (trace (check_all_prices w st su)))"
    using sends by (simp add: r)
  show ?thesis
    using a b by (rule conjI)
qed

text \<open>
  The same cycle when the file cannot be written: the save is the last event and fails,
  after both messages.
\<close>

theorem notify_before_persist_witness:
  "filter is_send (dropWhile (\<lambda>e. \<not> is_save e)
                     (trace (check_all_prices (demo_world True False) demo_store None))) = []
   \<and> outcome (check_all_prices (demo_world True False) demo_store None) = Inl OSError
   \<and> filter is_send (trace (check_all_prices (demo_world True False) demo_store None)) \<noteq> []
   \<and> is_save (last (trace (check_all_prices (demo_world True False) demo_store None)))"
proof -
  have failed: "outcome (check_all_prices (demo_world True False) demo_store None) = Inl OSError"
    by (simp add: demo_cycle)
  show ?thesis
    using notify_before_persist[of "demo_world True False" demo_store None] failed
    by blast
qed

text \<open>
  Claim C2 as stated allows no dispatch when persisting fails. Here the write fails,
  the file is as before, and both users have been sent their message.
\<close>

theorem persist_before_notify_counterexample:
  "outcome (check_all_prices (demo_world True False) demo_store None) = Inl OSError
   \<and> stored (check_all_prices (demo_world True False) demo_store None) = demo_store
   \<and> filter is_send (trace (check_all_prices (demo_world True False) demo_store None)) =
       [Send ''42'' [phone_update] True, Send ''7'' [phone_update] True]"
  by (simp add: demo_cycle)

subsection \<open>The outcome of a send changes nothing else\<close>








subsection \<open>The fetcher\<close>

lemma isdigit_not_space: "isdigit c \<Longrightarrow> \<not> isspace c"
  by (auto simp: isdigit_def isspace_def Let_def)

lemma isdigit_not_sign: "isdigit c \<Longrightarrow> c \<noteq> CHR ''-'' \<and> c \<noteq> CHR ''+'' \<and> c \<noteq> CHR ''_''"
  by (auto simp: isdigit_def Let_def)

lemma filter_dropWhile_disjoint:
  "(\<And>x. Q x \<Longrightarrow> \<not> P x) \<Longrightarrow> filter P (dropWhile Q xs) = filter P xs"
  by (induction xs) auto

lemma filter_isdigit_strip: "filter isdigit (strip s) = filter isdigit s"
proof -
  have d: "\<And>xs. filter isdigit (dropWhile isspace xs) = filter isdigit xs"
    by (rule filter_dropWhile_disjoint) (auto dest: isdigit_not_space)
  show ?thesis
    by (simp add: strip_def d flip: rev_filter)
qed

lemma isdigit_not_int_space: "isdigit c \<Longrightarrow> \<not> int_isspace c"
  by (auto simp: isdigit_def int_isspace_def Let_def)

lemma dropWhile_int_space_digits:
  "\<forall>c\<in>set ds. isdigit c \<Longrightarrow> dropWhile int_isspace ds = ds"
  by (cases ds) (auto dest: isdigit_not_int_space)

lemma int_strip_digits: "\<forall>c\<in>set ds. isdigit c \<Longrightarrow> int_strip ds = ds"
  by (simp add: int_strip_def dropWhile_int_space_digits)

lemma valid_body_digits: "\<forall>c\<in>set ds. isdigit c \<Longrightarrow> valid_body ds = (ds \<noteq> [])"
  by (induction ds rule: valid_body.induct) (auto dest: isdigit_not_sign)

lemma py_int_digits:
  assumes "\<forall>c\<in>set ds. isdigit c"
  shows "py_int lim ds =
     (if ds = [] then None
      else if (case lim of None \<Rightarrow> False | Some n \<Rightarrow> n < length ds) then None
      else Some (int (digits_value ds)))"
proof (cases "ds = []")
  case True
  then show ?thesis
    by (simp add: py_int_def int_strip_def)
next
  case False
  then have "isdigit (hd ds)"
    using assms by simp
  then have h: "hd ds \<noteq> CHR ''-''" "hd ds \<noteq> CHR ''+''"
    using isdigit_not_sign by blast+
  have f: "filter isdigit ds = ds"
    using assms by (simp add: filter_id_conv)
  have v: "valid_body ds"
    using False valid_body_digits[OF assms] by simp
  show ?thesis
    using False h v by (simp add: py_int_def int_strip_digits[OF assms] Let_def f cong: option.case_cong)
qed

lemma price_of_text:
  "py_int lim (filter isdigit (strip price_text)) =
     (if filter isdigit price_text = [] then None
      else if (case lim of None \<Rightarrow> False | Some n \<Rightarrow> n < length (filter isdigit price_text)) then None
      else Some (int (digits_value (filter isdigit price_text))))"
  by (simp add: filter_isdigit_strip py_int_digits)

text \<open>
  Claim C7. \<open>get_product_details\<close> returns \<open>None\<close> when the request fails and when
  the page lacks the name element (under both selectors) or the price element. When it
  returns details, the price text has at least one digit, the price is the number its
  digits spell, every other character dropped, and the name is the stripped text of
  the name element.
\<close>

theorem fetch_all_or_nothing:
  "(http_get w t u = RequestFailed \<longrightarrow> get_product_details w t u = None)
   \<and> (\<forall>pg. http_get w t u = Page pg
            \<and> ((span_B_NuCI pg = None \<and> h1_span pg = None) \<or> div_price pg = None)
          \<longrightarrow> get_product_details w t u = None)
   \<and> (\<forall>pd. get_product_details w t u = Some pd \<longrightarrow>
         (\<exists>pg price_text.
            http_get w t u = Page pg \<and> div_price pg = Some price_text
            \<and> filter isdigit price_text \<noteq> []
            \<and> pd_price pd = int (digits_value (filter isdigit price_text))
            \<and> map_option strip (case span_B_NuCI pg of Some e \<Rightarrow> Some e | None \<Rightarrow> h1_span pg)
                = Some (pd_name pd)))"
proof (intro conjI allI impI)
  assume "http_get w t u = RequestFailed"
  then show "get_product_details w t u = None"
    by (simp add: get_product_details_def)
next
  fix pg
  assume "http_get w t u = Page pg
            \<and> ((span_B_NuCI pg = None \<and> h1_span pg = None) \<or> div_price pg = None)"
  then show "get_product_details w t u = None"
    by (auto simp: get_product_details_def Let_def split: option.splits)
next
  fix pd
  assume s: "get_product_details w t u = Some pd"
  then obtain pg where pg: "http_get w t u = Page pg"
    by (cases "http_get w t u") (simp_all add: get_product_details_def)
  from s pg obtain price_text where pt: "div_price pg = Some price_text"
    by (cases "div_price pg") (simp_all add: get_product_details_def Let_def)
  from s pg pt obtain name_text where
    nt: "(case span_B_NuCI pg of Some e \<Rightarrow> Some e | None \<Rightarrow> h1_span pg) = Some name_text"
    by (cases "case span_B_NuCI pg of Some e \<Rightarrow> Some e | None \<Rightarrow> h1_span pg")
       (simp_all add: get_product_details_def Let_def)
  from s pg pt nt have
    "filter isdigit price_text \<noteq> [] \<and>
     pd_price pd = int (digits_value (filter isdigit price_text)) \<and>
     pd_name pd = strip name_text"
    by (auto simp: get_product_details_def Let_def price_of_text split: option.splits if_splits)
  then show "\<exists>pg price_text.
            http_get w t u = Page pg \<and> div_price pg = Some price_text
            \<and> filter isdigit price_text \<noteq> []
            \<and> pd_price pd = int (digits_value (filter isdigit price_text))
            \<and> map_option strip (case span_B_NuCI pg of Some e \<Rightarrow> Some e | None \<Rightarrow> h1_span pg)
                = Some (pd_name pd)"
    using pg pt nt by simp
qed

text \<open>
  The kettle's page lacks the price element and an unknown URL fails: no details. The
  phone's price text, a rupee sign and \<open>950\<close>, gives the price 950.
\<close>

theorem fetch_all_or_nothing_witness:
  "http_get (demo_world True True) 0 soldout_url =
     Page \<lparr>span_B_NuCI = Some ''Kettle'', h1_span = None, div_price = None, img_396cs4 = None\<rparr>
   \<and> get_product_details (demo_world True True) 0 soldout_url = None
   \<and> http_get (demo_world True True) 0 ''https://www.flipkart.com/nowhere'' = RequestFailed
   \<and> get_product_details (demo_world True True) 0 ''https://www.flipkart.com/nowhere'' = None
   \<and> get_product_details (demo_world True True) 0 phone_url =
       Some \<lparr>pd_name = ''Phone X (Black, 128 GB)'', pd_price = 950, pd_url = phone_url,
             pd_image = Some ''https://rukminim.example/phone.jpg''\<rparr>
   \<and> (\<exists>pg price_text.
         http_get (demo_world True True) 0 phone_url = Page pg
         \<and> div_price pg = Some price_text
         \<and> filter isdigit price_text = ''950''
         \<and> int (digits_value (filter isdigit price_text)) = 950)"
proof -
  let ?w = "demo_world True True"
  let ?nowhere = "''https://www.flipkart.com/nowhere''"
  let ?pd = "\<lparr>pd_name = ''Phone X (Black, 128 GB)'', pd_price = 950, pd_url = phone_url,
             pd_image = Some ''https://rukminim.example/phone.jpg''\<rparr>"
  have k: "http_get ?w 0 soldout_url =
     Page \<lparr>span_B_NuCI = Some ''Kettle'', h1_span = None, div_price = None, img_396cs4 = None\<rparr>"
    by (simp add: demo_world_fields shop_soldout)
  have n: "http_get ?w 0 ?nowhere = RequestFailed"
    by (simp add: demo_world_fields shop_def phone_url_def lamp_url_def soldout_url_def
          affiliate_url_def)
  have p: "http_get ?w 0 phone_url =
     Page \<lparr>span_B_NuCI = Some ''Phone X (Black, 128 GB)'', h1_span = None,
           div_price = Some ([CHR 0xE2, CHR 0x82, CHR 0xB9] @ ''950''),
           img_396cs4 = Some (Some ''https://rukminim.example/phone.jpg'')\<rparr>"
    by (simp add: demo_world_fields shop_phone)
  have kettle: "get_product_details ?w 0 soldout_url = None"
    using fetch_all_or_nothing[of ?w 0 soldout_url] k by simp
  have nowhere: "get_product_details ?w 0 ?nowhere = None"
    using fetch_all_or_nothing[of ?w 0 ?nowhere] n by simp
  have phone: "get_product_details ?w 0 phone_url = Some ?pd"
    by (rule fetch_phone)
  have "\<exists>pg price_text. http_get ?w 0 phone_url = Page pg \<and> div_price pg = Some price_text
         \<and> filter isdigit price_text \<noteq> []
         \<and> pd_price ?pd = int (digits_value (filter isdigit price_text))
         \<and> map_option strip (case span_B_NuCI pg of Some e \<Rightarrow> Some e | None \<Rightarrow> h1_span pg)
                = Some (pd_name ?pd)"
    using fetch_all_or_nothing[of ?w 0 phone_url] phone by blast
  then have "\<exists>pg price_text.
         http_get ?w 0 phone_url = Page pg
         \<and> div_price pg = Some price_text
         \<and> filter isdigit price_text = ''950''
         \<and> int (digits_value (filter isdigit price_text)) = 950"
    by (auto simp: p isdigit_def)
  then show ?thesis
    using k n kettle nowhere phone by simp
qed

subsection \<open>Removing an alert\<close>

lemma pop_first_None: "(pop_first i as = None) = (\<forall>a\<in>set as. alert_id a \<noteq> i)"
  by (induction as) (auto split: option.splits)

lemma pop_first_first:
  "\<forall>a\<in>set pre. alert_id a \<noteq> i \<Longrightarrow> alert_id x = i \<Longrightarrow>
   pop_first i (pre @ x # post) = Some (x, pre @ post)"
  by (induction pre) auto

text \<open>
  Claim C6, amended. With an argument \<open>i\<close>: when the caller's list has an alert with id
  \<open>i\<close>, the first such alert is removed, the collection is saved and, the save
  succeeding, the removal is reported; when the list is not empty and no alert has id
  \<open>i\<close>, the reply is the not-found message and nothing is saved; when the caller has no
  list or an empty one, the reply is that there are no active alerts, and nothing is
  saved.
\<close>

theorem remove_product_cases:
  fixes w st user i more
  defines "p \<equiv> load_products st"
    and "r \<equiv> remove_product w st user (i # more)"
  shows "(\<forall>pre x post.
            map_of p user = Some (pre @ x # post) \<and> alert_id x = i
            \<and> (\<forall>a\<in>set pre. alert_id a \<noteq> i) \<longrightarrow>
            trace r = Save (AList.update user (pre @ post) p)
                      # (if write_ok w 0 then [Reply (Removed (alert_name x))] else [])
            \<and> stored r = (if write_ok w 0 then Some (AList.update user (pre @ post) p) else st)
            \<and> outcome r = (if \<not> write_ok w 0 then Inl OSError
                           else if reply_ok w 1 then Inr () else Inl TelegramError))
         \<and> (\<forall>alerts.
              map_of p user = Some alerts \<and> alerts \<noteq> [] \<and> (\<forall>a\<in>set alerts. alert_id a \<noteq> i) \<longrightarrow>
              trace r = [Reply (NotFound i)] \<and> stored r = st)
         \<and> (map_of p user = None \<or> map_of p user = Some [] \<longrightarrow>
              trace r = [Reply NoAlerts] \<and> stored r = st)"
  unfolding p_def r_def
proof (intro conjI allI impI)
  let ?p = "load_products st"
  let ?r = "remove_product w st user (i # more)"
  fix pre x post
  assume a: "map_of ?p user = Some (pre @ x # post) \<and> alert_id x = i
            \<and> (\<forall>a\<in>set pre. alert_id a \<noteq> i)"
  then have pf: "pop_first i (pre @ x # post) = Some (x, pre @ post)"
    by (simp add: pop_first_first)
  have r: "?r = (case save_products w 0 (AList.update user (pre @ post) ?p) of
                  Inl e \<Rightarrow> \<lparr>outcome = Inl e, stored = st,
                            trace = [Save (AList.update user (pre @ post) ?p)]\<rparr>
                | Inr st' \<Rightarrow> finish w st' [Save (AList.update user (pre @ post) ?p)]
                               (Removed (alert_name x)))"
    using a pf by (simp add: remove_product_def Let_def)
  show "trace ?r = Save (AList.update user (pre @ post) ?p)
                      # (if write_ok w 0 then [Reply (Removed (alert_name x))] else [])"
    by (simp add: r save_products_def finish_def)
  show "stored ?r = (if write_ok w 0 then Some (AList.update user (pre @ post) ?p) else st)"
    by (simp add: r save_products_def finish_def)
  show "outcome ?r = (if \<not> write_ok w 0 then Inl OSError
                           else if reply_ok w 1 then Inr () else Inl TelegramError)"
    by (simp add: r save_products_def finish_def)
next
  let ?p = "load_products st"
  let ?r = "remove_product w st user (i # more)"
  fix alerts
  assume a: "map_of ?p user = Some alerts \<and> alerts \<noteq> [] \<and> (\<forall>a\<in>set alerts. alert_id a \<noteq> i)"
  then have "pop_first i alerts = None"
    by (simp add: pop_first_None)
  then have r: "?r = finish w st [] (NotFound i)"
    using a by (simp add: remove_product_def Let_def)
  show "trace ?r = [Reply (NotFound i)]"
    by (simp add: r finish_def)
  show "stored ?r = st"
    by (simp add: r finish_def)
next
  let ?p = "load_products st"
  let ?r = "remove_product w st user (i # more)"
  assume "map_of ?p user = None \<or> map_of ?p user = Some []"
  then have r: "?r = finish w st [] NoAlerts"
    by (auto simp: remove_product_def Let_def)
  show "trace ?r = [Reply NoAlerts]"
    by (simp add: r finish_def)
  show "stored ?r = st"
    by (simp add: r finish_def)
qed

text \<open>
  User 7 removes the phone (second in the list, the lamp stays); asks for an id that no
  alert has; and user 99, who has no list, asks for a removal.
\<close>

theorem remove_product_cases_witness:
  "map_of (load_products demo_store) ''7'' = Some ([lamp_alert] @ phone_alert # [])
   \<and> alert_id phone_alert = ''PHONE1''
   \<and> alert_id lamp_alert \<noteq> ''PHONE1''
   \<and> trace (remove_product (demo_world True True) demo_store ''7'' [''PHONE1'']) =
       [Save [(''42'', [phone_alert]), (''7'', [lamp_alert])], Reply (Removed ''Phone X'')]
   \<and> stored (remove_product (demo_world True True) demo_store ''7'' [''PHONE1'']) =
       Some [(''42'', [phone_alert]), (''7'', [lamp_alert])]
   \<and> outcome (remove_product (demo_world True True) demo_store ''7'' [''PHONE1'']) = Inr ()
   \<and> trace (remove_product (demo_world True True) demo_store ''7'' [''KETTLE3'']) =
       [Reply (NotFound ''KETTLE3'')]
   \<and> stored (remove_product (demo_world True True) demo_store ''7'' [''KETTLE3'']) = demo_store
   \<and> map_of (load_products demo_store) ''99'' = None
   \<and> trace (remove_product (demo_world True True) demo_store ''99'' [''PHONE1'']) =
       [Reply NoAlerts]
   \<and> stored (remove_product (demo_world True True) demo_store ''99'' [''PHONE1'']) = demo_store"
proof -
  let ?w = "demo_world True True"
  have l: "load_products demo_store = [(''42'', [phone_alert]), (''7'', [lamp_alert, phone_alert])]"
    by (simp add: load_products_def demo_store_def)
  have h1: "map_of (load_products demo_store) ''7'' = Some ([lamp_alert] @ phone_alert # [])
            \<and> alert_id phone_alert = ''PHONE1''
            \<and> (\<forall>a\<in>set [lamp_alert]. alert_id a \<noteq> ''PHONE1'')"
    by (simp add: l phone_alert_def lamp_alert_def)
  have h2: "map_of (load_products demo_store) ''7'' = Some [lamp_alert, phone_alert]
            \<and> [lamp_alert, phone_alert] \<noteq> []
            \<and> (\<forall>a\<in>set [lamp_alert, phone_alert]. alert_id a \<noteq> ''KETTLE3'')"
    by (simp add: l phone_alert_def lamp_alert_def)
  have h3: "map_of (load_products demo_store) ''99'' = None \<or>
            map_of (load_products demo_store) ''99'' = Some []"
    by (simp add: l)
  note c1 = remove_product_cases[where st = demo_store and user = "''7''" and w = ?w
      and i = "''PHONE1''" and more = "[]"]
  note c2 = remove_product_cases[where st = demo_store and user = "''7''" and w = ?w
      and i = "''KETTLE3''" and more = "[]"]
  note c3 = remove_product_cases[where st = demo_store and user = "''99''" and w = ?w
      and i = "''PHONE1''" and more = "[]"]
  have r1: "trace (remove_product ?w demo_store ''7'' [''PHONE1'']) =
              Save (AList.update ''7'' ([lamp_alert] @ []) (load_products demo_store))
              # (if write_ok ?w 0 then [Reply (Removed (alert_name phone_alert))] else [])
            \<and> stored (remove_product ?w demo_store ''7'' [''PHONE1'']) =
              (if write_ok ?w 0
               then Some (AList.update ''7'' ([lamp_alert] @ []) (load_products demo_store))
               else demo_store)
            \<and> outcome (remove_product ?w demo_store ''7'' [''PHONE1'']) =
              (if \<not> write_ok ?w 0 then Inl OSError
               else if reply_ok ?w 1 then Inr () else Inl TelegramError)"
    using c1 h1 by blast
  have r2: "trace (remove_product ?w demo_store ''7'' [''KETTLE3'']) = [Reply (NotFound ''KETTLE3'')]
            \<and> stored (remove_product ?w demo_store ''7'' [''KETTLE3'']) = demo_store"
    using c2 h2 by blast
  have r3: "trace (remove_product ?w demo_store ''99'' [''PHONE1'']) = [Reply NoAlerts]
            \<and> stored (remove_product ?w demo_store ''99'' [''PHONE1'']) = demo_store"
    using c3 h3 by blast
  show ?thesis
    using r1 r2 r3
    by (simp add: l demo_world_fields phone_alert_def lamp_alert_def)
qed

text \<open>
  Claim C6 as stated has the not-found message whenever no alert matches. A caller
  without a list, or with an empty one, gets the reply that there are no active alerts.
\<close>

theorem remove_not_found_counterexample:
  "map_of (load_products demo_store) ''99'' = None
   \<and> trace (remove_product (demo_world True True) demo_store ''99'' [''PHONE1'']) =
       [Reply NoAlerts]
   \<and> map_of (load_products (Some [(''42'', [])])) ''42'' = Some []
   \<and> trace (remove_product (demo_world True True) (Some [(''42'', [])]) ''42'' [''PHONE1'']) =
       [Reply NoAlerts]"
  by (simp add: remove_product_def load_products_def demo_store_def finish_def)

subsection \<open>Adding an alert\<close>

text \<open>
  What \<open>extract_product_id\<close> returns, read off the URL: the value of the \<open>pid\<close>
  parameter when the first \<open>pid=\<close> of the URL is that parameter, and \<open>None\<close> exactly
  when no \<open>pid=\<close> of the URL is followed by a character other than \<open>&\<close>.
\<close>

lemma starts_with_iff: "starts_with x s = (\<exists>q. s = x @ q)"
  by (induction x s rule: starts_with.induct) auto

lemma str_contains_iff: "str_contains x s = (\<exists>p q. s = p @ x @ q)"
proof (induction s)
  case Nil
  show ?case by auto
next
  case (Cons c cs)
  have "(\<exists>p q. c # cs = p @ x @ q) = ((\<exists>q. c # cs = x @ q) \<or> (\<exists>p q. cs = p @ x @ q))"
  proof
    assume "\<exists>p q. c # cs = p @ x @ q"
    then obtain p q where e: "c # cs = p @ x @ q" by blast
    show "(\<exists>q. c # cs = x @ q) \<or> (\<exists>p q. cs = p @ x @ q)"
    proof (cases p)
      case Nil
      then show ?thesis using e by auto
    next
      case (Cons d p')
      then have "cs = p' @ x @ q" using e by simp
      then show ?thesis by blast
    qed
  next
    assume "(\<exists>q. c # cs = x @ q) \<or> (\<exists>p q. cs = p @ x @ q)"
    then show "\<exists>p q. c # cs = p @ x @ q"
    proof
      assume "\<exists>q. c # cs = x @ q"
      then obtain q where "c # cs = [] @ x @ q" by auto
      then show ?thesis by blast
    next
      assume "\<exists>p q. cs = p @ x @ q"
      then obtain p q where "cs = p @ x @ q" by blast
      then have "c # cs = (c # p) @ x @ q" by simp
      then show ?thesis by blast
    qed
  qed
  then show ?case
    using Cons.IH by (simp add: starts_with_iff)
qed

lemma pid_group_here:
  assumes "v \<noteq> []" and "CHR ''&'' \<notin> set v" and "rest = [] \<or> hd rest = CHR ''&''"
  shows "extract_product_id (''pid='' @ v @ rest) = Some v"
proof -
  have r: "takeWhile (\<lambda>x. x \<noteq> CHR ''&'') rest = []"
    using assms(3) by (cases rest) auto
  have "takeWhile (\<lambda>x. x \<noteq> CHR ''&'') (v @ rest) = v"
    using assms(2) r by (induction v) auto
  then show ?thesis
    using assms(1) by simp
qed

lemma no_pid_group_here:
  assumes "\<forall>q. s = ''pid='' @ q \<longrightarrow> q = [] \<or> hd q = CHR ''&''"
  shows "\<not> (starts_with ''pid='' s \<and> takeWhile (\<lambda>x. x \<noteq> CHR ''&'') (drop 4 s) \<noteq> [])"
proof
  assume a: "starts_with ''pid='' s \<and> takeWhile (\<lambda>x. x \<noteq> CHR ''&'') (drop 4 s) \<noteq> []"
  then obtain q where q: "s = ''pid='' @ q"
    using starts_with_iff by blast
  then have "q = [] \<or> hd q = CHR ''&''"
    using assms by blast
  then have "takeWhile (\<lambda>x. x \<noteq> CHR ''&'') q = []"
    by (cases q) auto
  then show False
    using a q by simp
qed

lemma pid_group_skip:
  assumes "\<forall>p q. pre @ s = p @ ''pid='' @ q \<and> length p < length pre \<longrightarrow> q = [] \<or> hd q = CHR ''&''"
  shows "extract_product_id (pre @ s) = extract_product_id s"
  using assms
proof (induction pre)
  case Nil
  show ?case by simp
next
  case (Cons c pre)
  have here: "\<forall>q. c # (pre @ s) = ''pid='' @ q \<longrightarrow> q = [] \<or> hd q = CHR ''&''"
  proof (intro allI impI)
    fix q
    assume "c # (pre @ s) = ''pid='' @ q"
    then have "(c # pre) @ s = [] @ ''pid='' @ q \<and> length ([] :: string) < length (c # pre)"
      by simp
    then show "q = [] \<or> hd q = CHR ''&''"
      using Cons.prems by blast
  qed
  have later: "\<forall>p q. pre @ s = p @ ''pid='' @ q \<and> length p < length pre \<longrightarrow> q = [] \<or> hd q = CHR ''&''"
  proof (intro allI impI)
    fix p q
    assume "pre @ s = p @ ''pid='' @ q \<and> length p < length pre"
    then have "(c # pre) @ s = (c # p) @ ''pid='' @ q \<and> length (c # p) < length (c # pre)"
      by simp
    then show "q = [] \<or> hd q = CHR ''&''"
      using Cons.prems by blast
  qed
  have "extract_product_id (c # (pre @ s)) = extract_product_id (pre @ s)"
    using no_pid_group_here[OF here] by (simp only: extract_product_id.simps(2) if_False)
  then show ?case
    using Cons.IH[OF later] by simp
qed

lemma no_pid_group_iff:
  "(extract_product_id s = None) =
     (\<forall>p q. s = p @ ''pid='' @ q \<longrightarrow> q = [] \<or> hd q = CHR ''&'')"
proof
  assume a: "\<forall>p q. s = p @ ''pid='' @ q \<longrightarrow> q = [] \<or> hd q = CHR ''&''"
  then have "\<forall>p q. s @ [] = p @ ''pid='' @ q \<and> length p < length s \<longrightarrow> q = [] \<or> hd q = CHR ''&''"
    by simp
  then have "extract_product_id (s @ []) = extract_product_id []"
    by (rule pid_group_skip)
  then show "extract_product_id s = None"
    by simp
next
  assume "extract_product_id s = None"
  then show "\<forall>p q. s = p @ ''pid='' @ q \<longrightarrow> q = [] \<or> hd q = CHR ''&''"
  proof (induction s)
    case Nil
    show ?case by simp
  next
    case (Cons c cs)
    have n: "\<not> (starts_with ''pid='' (c # cs) \<and>
                takeWhile (\<lambda>x. x \<noteq> CHR ''&'') (drop 4 (c # cs)) \<noteq> [])"
      using Cons.prems by (auto split: if_splits)
    then have rec: "extract_product_id cs = None"
      using Cons.prems by (simp split: if_splits)
    show ?case
    proof (intro allI impI)
      fix p q
      assume e: "c # cs = p @ ''pid='' @ q"
      show "q = [] \<or> hd q = CHR ''&''"
      proof (cases p)
        case Nil
        then have "c # cs = ''pid='' @ q" using e by simp
        then have "takeWhile (\<lambda>x. x \<noteq> CHR ''&'') q = []"
          using n by (simp add: starts_with_iff)
        then show ?thesis by (cases q) (auto split: if_splits)
      next
        case (Cons d p')
        then have "cs = p' @ ''pid='' @ q" using e by simp
        then show ?thesis using Cons.IH[OF rec] by blast
      qed
    qed
  qed
qed

lemma pid_parameter_value:
  assumes "url = pre @ ''pid='' @ v @ rest"
    and "v \<noteq> []" and "CHR ''&'' \<notin> set v" and "rest = [] \<or> hd rest = CHR ''&''"
    and "\<forall>p q. url = p @ ''pid='' @ q \<longrightarrow> length pre \<le> length p"
  shows "extract_product_id url = Some v"
proof -
  have "\<forall>p q. pre @ (''pid='' @ v @ rest) = p @ ''pid='' @ q \<and> length p < length pre
          \<longrightarrow> q = [] \<or> hd q = CHR ''&''"
    using assms(1,5) by auto
  then have "extract_product_id (pre @ (''pid='' @ v @ rest)) =
             extract_product_id (''pid='' @ v @ rest)"
    by (rule pid_group_skip)
  then show ?thesis
    using assms(1) pid_group_here[OF assms(2,3,4)] by simp
qed

lemma first_occurrence:
  assumes "\<not> str_contains x (pre @ butlast x)" and "url = pre @ x @ rest" and "url = p @ x @ q"
  shows "length pre \<le> length p"
proof (rule ccontr)
  assume "\<not> length pre \<le> length p"
  then have l: "length (p @ x) \<le> length (pre @ butlast x)"
    using assms(2,3) by (cases "x = []") auto
  have "take (length (p @ x)) url = p @ x"
    using assms(3) by simp
  moreover have "take (length (pre @ butlast x)) url = pre @ butlast x"
  proof -
    have "url = (pre @ butlast x) @ (if x = [] then [] else [last x]) @ rest"
      using assms(2) by simp
    then show ?thesis
      by (metis append_eq_conv_conj)
  qed
  ultimately have "p @ x = take (length (p @ x)) (pre @ butlast x)"
    using l by (metis min.absorb1 take_take)
  then have "pre @ butlast x = p @ x @ drop (length (p @ x)) (pre @ butlast x)"
    by (metis append_assoc append_take_drop_id)
  then show False
    using assms(1) str_contains_iff by blast
qed

text \<open>
  Claim C8, amended. A successful \<open>add_product\<close> appends one alert to the caller's
  list and leaves the lists of the other users as they were. The id of the new alert is
  what \<open>extract_product_id\<close> returns for the URL and, when that is \<open>None\<close>, the length
  of the list before the insertion, in decimal. For a URL whose first occurrence of
  \<open>pid=\<close> is the \<open>pid\<close> query parameter (it follows \<open>?\<close> or \<open>&\<close>, outside a fragment)
  with a value that is not empty, holds neither \<open>&\<close> nor \<open>#\<close> and ends at the next \<open>&\<close>
  or at the end of the URL, \<open>extract_product_id\<close> returns that value; it returns \<open>None\<close>
  exactly when no occurrence of \<open>pid=\<close> in the URL is followed by a character other
  than \<open>&\<close>. (Ids need not be distinct.)
\<close>

theorem add_product_appends:
  fixes w st user args
  defines "old \<equiv> (case map_of (load_products st) user of None \<Rightarrow> [] | Some l \<Rightarrow> l)"
  assumes "2 \<le> length args"
    and "py_int (max_str_digits w) (args ! 1) = Some target"
    and "str_contains ''flipkart.com'' (args ! 0)"
    and "reply_ok w 0"
    and "get_product_details w 1 (args ! 0) = Some pd"
    and "write_ok w 2"
  shows "(\<exists>p'. stored (add_product w st user args) = Some p'
           \<and> map_of p' user =
               Some (old @ [\<lparr>alert_id = (case extract_product_id (args ! 0) of
                                           Some pid \<Rightarrow> pid
                                         | None \<Rightarrow> str_nat (length old)),
                             alert_name = pd_name pd, alert_url = args ! 0,
                             current_price = pd_price pd, target_price = target,
                             added_on = time_time w 2\<rparr>])
           \<and> (\<forall>v. v \<noteq> user \<longrightarrow> map_of p' v = map_of (load_products st) v))
         \<and> (\<forall>pre v rest.
               args ! 0 = pre @ ''pid='' @ v @ rest
               \<and> pre \<noteq> [] \<and> (last pre = CHR ''?'' \<or> last pre = CHR ''&'')
               \<and> CHR ''#'' \<notin> set pre
               \<and> v \<noteq> [] \<and> CHR ''&'' \<notin> set v \<and> CHR ''#'' \<notin> set v
               \<and> (rest = [] \<or> hd rest = CHR ''&'')
               \<and> (\<forall>p q. args ! 0 = p @ ''pid='' @ q \<longrightarrow> length pre \<le> length p)
             \<longrightarrow> extract_product_id (args ! 0) = Some v)
         \<and> ((extract_product_id (args ! 0) = None) =
              (\<forall>p q. args ! 0 = p @ ''pid='' @ q \<longrightarrow> q = [] \<or> hd q = CHR ''&''))"
proof -
  have run: "stored (add_product w st user args) =
      (let p = load_products st;
           p1 = (if map_of p user = None then AList.update user [] p else p);
           user_alerts = (case map_of p1 user of None \<Rightarrow> [] | Some l \<Rightarrow> l);
           product_id = (case extract_product_id (args ! 0) of
                           Some pid \<Rightarrow> pid
                         | None \<Rightarrow> str_nat (length user_alerts))
       in Some (AList.update user
                  (user_alerts @ [\<lparr>alert_id = product_id, alert_name = pd_name pd,
                                   alert_url = args ! 0, current_price = pd_price pd,
                                   target_price = target, added_on = time_time w 2\<rparr>]) p1))"
    using assms(2-7)
    by (simp add: add_product_def Let_def save_products_def finish_def)
  have appended: "\<exists>p'. stored (add_product w st user args) = Some p'
           \<and> map_of p' user =
               Some (old @ [\<lparr>alert_id = (case extract_product_id (args ! 0) of
                                           Some pid \<Rightarrow> pid
                                         | None \<Rightarrow> str_nat (length old)),
                             alert_name = pd_name pd, alert_url = args ! 0,
                             current_price = pd_price pd, target_price = target,
                             added_on = time_time w 2\<rparr>])
           \<and> (\<forall>v. v \<noteq> user \<longrightarrow> map_of p' v = map_of (load_products st) v)"
  proof (cases "map_of (load_products st) user")
    case None
    then show ?thesis
      unfolding old_def by (simp add: run Let_def update_conv' cong: option.case_cong)
  next
    case (Some l)
    then show ?thesis
      unfolding old_def by (simp add: run Let_def update_conv')
  qed
  have parameter: "\<forall>pre v rest.
               args ! 0 = pre @ ''pid='' @ v @ rest
               \<and> pre \<noteq> [] \<and> (last pre = CHR ''?'' \<or> last pre = CHR ''&'')
               \<and> CHR ''#'' \<notin> set pre
               \<and> v \<noteq> [] \<and> CHR ''&'' \<notin> set v \<and> CHR ''#'' \<notin> set v
               \<and> (rest = [] \<or> hd rest = CHR ''&'')
               \<and> (\<forall>p q. args ! 0 = p @ ''pid='' @ q \<longrightarrow> length pre \<le> length p)
             \<longrightarrow> extract_product_id (args ! 0) = Some v"
    using pid_parameter_value by blast
  have fallback: "(extract_product_id (args ! 0) = None) =
              (\<forall>p q. args ! 0 = p @ ''pid='' @ q \<longrightarrow> q = [] \<or> hd q = CHR ''&'')"
    by (rule no_pid_group_iff)
  show ?thesis
    using appended parameter fallback by (intro conjI)
qed

text \<open>
  The phone's URL has the parameter \<open>pid=PHONE1\<close> right after the \<open>?\<close>, and no earlier
  \<open>pid=\<close>: the alert gets the id \<open>PHONE1\<close>. The lamp's URL has no \<open>pid=\<close> at all: added
  to a list of one alert, it gets the id \<open>1\<close>.
\<close>

theorem add_product_appends_witness:
  "2 \<le> length [lamp_url, ''1000'']
   \<and> py_int (max_str_digits (demo_world True True)) ([lamp_url, ''1000''] ! 1) = Some 1000
   \<and> str_contains ''flipkart.com'' ([lamp_url, ''1000''] ! 0)
   \<and> reply_ok (demo_world True True) 0
   \<and> write_ok (demo_world True True) 2
   \<and> \<not> str_contains ''pid='' lamp_url
   \<and> (\<exists>p'. stored (add_product (demo_world True True) demo_store ''42'' [lamp_url, ''1000''])
               = Some p'
           \<and> map_of p' ''42'' =
               Some [phone_alert,
                     \<lparr>alert_id = ''1'', alert_name = ''Desk Lamp'', alert_url = lamp_url,
                      current_price = 1200, target_price = 1000, added_on = 1700000002\<rparr>]
           \<and> map_of p' ''7'' = Some [lamp_alert, phone_alert])
   \<and> phone_url = ''https://www.flipkart.com/phone-x/p/itm1?'' @ ''pid='' @ ''PHONE1'' @ ''&lid=L1''
   \<and> \<not> str_contains ''pid='' (''https://www.flipkart.com/phone-x/p/itm1?'' @ ''pid'')
   \<and> (\<exists>p'. stored (add_product (demo_world True True) None ''42'' [phone_url, ''1000''])
               = Some p'
           \<and> map_of p' ''42'' =
               Some [\<lparr>alert_id = ''PHONE1'', alert_name = ''Phone X (Black, 128 GB)'',
                      alert_url = phone_url, current_price = 950, target_price = 1000,
                      added_on = 1700000002\<rparr>])"
proof -
  let ?w = "demo_world True True"
  let ?args = "[lamp_url, ''1000'']"
  let ?args' = "[phone_url, ''1000'']"
  let ?pre = "''https://www.flipkart.com/phone-x/p/itm1?''"
  have a1: "2 \<le> length ?args" by simp
  have a2: "py_int (max_str_digits ?w) (?args ! 1) = Some 1000"
    by (simp add: demo_world_fields int_1000)
  have a3: "str_contains ''flipkart.com'' (?args ! 0)"
    by (simp add: flipkart_lamp)
  have a4: "reply_ok ?w 0" by (simp add: demo_world_fields)
  have a5: "get_product_details ?w 1 (?args ! 0) =
              Some \<lparr>pd_name = ''Desk Lamp'', pd_price = 1200, pd_url = lamp_url, pd_image = None\<rparr>"
    by (simp add: fetch_lamp)
  have a6: "write_ok ?w 2" by (simp add: demo_world_fields)
  have b1: "2 \<le> length ?args'" by simp
  have b2: "py_int (max_str_digits ?w) (?args' ! 1) = Some 1000"
    by (simp add: demo_world_fields int_1000)
  have b3: "str_contains ''flipkart.com'' (?args' ! 0)"
    by (simp add: flipkart_phone)
  have b5: "get_product_details ?w 1 (?args' ! 0) =
              Some \<lparr>pd_name = ''Phone X (Black, 128 GB)'', pd_price = 950, pd_url = phone_url,
                    pd_image = Some ''https://rukminim.example/phone.jpg''\<rparr>"
    by (simp add: fetch_phone)
  have l: "load_products demo_store = [(''42'', [phone_alert]), (''7'', [lamp_alert, phone_alert])]"
    by (simp add: load_products_def demo_store_def)
  note lamp = add_product_appends[OF a1 a2 a3 a4 a5 a6, of demo_store "''42''"]
  note phone = add_product_appends[OF b1 b2 b3 a4 b5 a6, of None "''42''"]
  have no_pid: "\<not> str_contains ''pid='' lamp_url"
    by (simp add: lamp_url_def)
  then have "\<forall>p q. ?args ! 0 = p @ ''pid='' @ q \<longrightarrow> q = [] \<or> hd q = CHR ''&''"
    by (auto simp: str_contains_iff)
  then have lamp_id: "extract_product_id (?args ! 0) = None"
    using lamp by blast
  have split: "phone_url = ?pre @ ''pid='' @ ''PHONE1'' @ ''&lid=L1''"
    by (simp add: phone_url_def)
  have earlier: "\<not> str_contains ''pid='' (?pre @ ''pid'')"
    by simp
  have first: "\<forall>p q. ?args' ! 0 = p @ ''pid='' @ q \<longrightarrow> length ?pre \<le> length p"
  proof (intro allI impI)
    fix p q
    assume "?args' ! 0 = p @ ''pid='' @ q"
    then have "phone_url = p @ ''pid='' @ q" by simp
    moreover have "\<not> str_contains ''pid='' (?pre @ butlast ''pid='')"
      using earlier by simp
    ultimately show "length ?pre \<le> length p"
      using first_occurrence split by blast
  qed
  have "?args' ! 0 = ?pre @ ''pid='' @ ''PHONE1'' @ ''&lid=L1''
        \<and> ?pre \<noteq> [] \<and> (last ?pre = CHR ''?'' \<or> last ?pre = CHR ''&'')
        \<and> CHR ''#'' \<notin> set ?pre
        \<and> ''PHONE1'' \<noteq> [] \<and> CHR ''&'' \<notin> set ''PHONE1'' \<and> CHR ''#'' \<notin> set ''PHONE1''
        \<and> (''&lid=L1'' = [] \<or> hd ''&lid=L1'' = CHR ''&'')
        \<and> (\<forall>p q. ?args' ! 0 = p @ ''pid='' @ q \<longrightarrow> length ?pre \<le> length p)"
    using split first by simp
  then have phone_id: "extract_product_id (?args' ! 0) = Some ''PHONE1''"
    using phone by blast
  have added_lamp: "\<exists>p'. stored (add_product ?w demo_store ''42'' ?args) = Some p'
           \<and> map_of p' ''42'' =
               Some [phone_alert,
                     \<lparr>alert_id = ''1'', alert_name = ''Desk Lamp'', alert_url = lamp_url,
                      current_price = 1200, target_price = 1000, added_on = 1700000002\<rparr>]
           \<and> map_of p' ''7'' = Some [lamp_alert, phone_alert]"
    using lamp lamp_id
    by (auto simp: l demo_world_fields str_nat.simps digit_char_def)
  have added_phone: "\<exists>p'. stored (add_product ?w None ''42'' ?args') = Some p'
           \<and> map_of p' ''42'' =
               Some [\<lparr>alert_id = ''PHONE1'', alert_name = ''Phone X (Black, 128 GB)'',
                      alert_url = phone_url, current_price = 950, target_price = 1000,
                      added_on = 1700000002\<rparr>]"
    using phone phone_id
    by (auto simp: load_products_def demo_world_fields)
  show ?thesis
    using a1 a2 a3 a4 a6 no_pid split earlier added_lamp added_phone by simp
qed

text \<open>
  Claim C8 as stated has the ids of one user's list distinct, and each id the product
  id of the URL's \<open>pid\<close> parameter. Adding the phone's URL twice gives two alerts with
  the id \<open>PHONE1\<close>; and the link with \<open>cmpid=AFF1\<close> before \<open>pid=PHONE1\<close> gives the id
  \<open>AFF1\<close>, since the search for \<open>pid=\<close> finds it inside \<open>cmpid=\<close> first.
\<close>

theorem alert_id_counterexample:
  "map_option (map (\<lambda>(u, l). (u, map alert_id l)))
     (stored (add_product (demo_world True True)
                (stored (add_product (demo_world True True) None ''42'' [phone_url, ''1000'']))
                ''42'' [phone_url, ''900'']))
   = Some [(''42'', [''PHONE1'', ''PHONE1''])]
   \<and> affiliate_url = ''https://www.flipkart.com/phone-x/p/itm1?cmpid=AFF1&pid=PHONE1''
   \<and> map_option (map (\<lambda>(u, l). (u, map alert_id l)))
       (stored (add_product (demo_world True True) None ''42'' [affiliate_url, ''1000'']))
     = Some [(''42'', [''AFF1''])]"
  by (simp add: add_product_def demo_world_fields int_1000 int_900 flipkart_phone fetch_phone
        extract_phone flipkart_affiliate fetch_affiliate extract_affiliate
        load_products_def save_products_def finish_def Let_def)
  (simp add: affiliate_url_def)

end
